theory Spec2Isabelle
  imports Main "HOL-Library.Word"
begin

unbundle bit_operations_syntax

section \<open>Machine types and configuration constants\<close>

type_synonym u8 = "8 word"
type_synonym u32 = "32 word"

text \<open>The macros of \<^verbatim>\<open>sensornode.cpp\<close> and \<^verbatim>\<open>basestation.hpp\<close>.\<close>

definition BASE_STATION_ID :: u8 where
  "BASE_STATION_ID = 0"

definition BASE_STATION_ADDRESS :: u32 where
  "BASE_STATION_ADDRESS = 0xBAD1DEA5"

definition RF24_CHANNEL_SPACING :: u8 where
  "RF24_CHANNEL_SPACING = 5"

definition RF24_READING_PIPE :: nat where
  "RF24_READING_PIPE = 1"

definition RF24_ADDRESS_WIDTH :: nat where
  "RF24_ADDRESS_WIDTH = 4"

definition MAX_SEND_ATTEMPTS :: nat where
  "MAX_SEND_ATTEMPTS = 15"

definition FAILED_SEND_DELAY :: nat where
  "FAILED_SEND_DELAY = 15"

definition CHANNEL_CHECKS_MAX :: nat where
  "CHANNEL_CHECKS_MAX = 10"

definition CHANNEL_BUSY_DELAY_MIN_MS :: int where
  "CHANNEL_BUSY_DELAY_MIN_MS = 25"

definition CHANNEL_BUSY_DELAY_MAX_MS :: int where
  "CHANNEL_BUSY_DELAY_MAX_MS = 100"

definition SENSOR_NODE_NUM :: nat where
  "SENSOR_NODE_NUM = 10"

section \<open>Address and channel derivation\<close>

text \<open>
  \<^verbatim>\<open>memcpy(&address, address_bytes, sizeof(address))\<close> on the little-endian AVR target:
  the byte at index 0 is the least significant byte of the 32-bit integer.
\<close>

fun memcpy_u32 :: "u8 list \<Rightarrow> u32" where
  "memcpy_u32 [] = 0"
| "memcpy_u32 (b # bs) = ucast b + push_bit 8 (memcpy_u32 bs)"

definition calculate_radio_address :: "u8 \<Rightarrow> u32" where
  "calculate_radio_address node_id =
     (if BASE_STATION_ID = node_id then BASE_STATION_ADDRESS
      else memcpy_u32 [node_id, node_id, node_id, node_id])"

text \<open>
  \<^verbatim>\<open>return node_id * RF24_CHANNEL_SPACING\<close>: the product is computed in \<^verbatim>\<open>int\<close> and
  converted to \<^verbatim>\<open>uint8_t\<close> on return, which is the product of 8-bit words.
\<close>

definition calculate_radio_channel :: "u8 \<Rightarrow> u8" where
  "calculate_radio_channel node_id = node_id * RF24_CHANNEL_SPACING"

text \<open>The byte of a 32-bit address at byte offset \<open>k\<close> in memory (offset 0 is the lowest byte).\<close>

definition address_byte :: "u32 \<Rightarrow> nat \<Rightarrow> u8" where
  "address_byte a k = ucast (drop_bit (8 * k) a)"

section \<open>Message model\<close>

text \<open>
  Modelled from the spec: the enumeration \<^verbatim>\<open>message_t\<close> is declared in \<^verbatim>\<open>message.hpp\<close>,
  which is not among the sources; the only message kind the spec defines is the status update.
\<close>

datatype message_t = STATUS_UPDATE

record message =
  rx_id :: u8
  tx_id :: u8
  msg_type :: message_t

definition Message :: "u8 \<Rightarrow> u8 \<Rightarrow> message_t \<Rightarrow> message" where
  "Message rx tx t = \<lparr>rx_id = rx, tx_id = tx, msg_type = t\<rparr>"

definition get_rx_id :: "'a message_scheme \<Rightarrow> u8" where
  "get_rx_id m = rx_id m"

definition get_tx_id :: "'a message_scheme \<Rightarrow> u8" where
  "get_tx_id m = tx_id m"

text \<open>
  \<^verbatim>\<open>Message::get_type\<close> has the body \<^verbatim>\<open>return this->get_type();\<close>: it calls itself.
  A call that does not return is the value \<open>None\<close>.
\<close>

partial_function (option) get_type :: "message \<Rightarrow> message_t option" where
  "get_type m = get_type m"

text \<open>
  Modelled from the spec: the class \<^verbatim>\<open>UpdateMessage\<close> is not among the sources. It is a
  Message of kind status update with the payload flag \<open>is_vacant\<close>; its constructor takes the
  receiver id, the sender id, the reporting node's id and the flag (call in
  \<^verbatim>\<open>SensorNode::transmit_update(uint8_t)\<close>).
\<close>

record update_message = message +
  um_node_id :: u8
  is_vacant :: bool

definition UpdateMessage :: "u8 \<Rightarrow> u8 \<Rightarrow> u8 \<Rightarrow> bool \<Rightarrow> update_message" where
  "UpdateMessage rx tx nid vac =
     \<lparr>rx_id = rx, tx_id = tx, msg_type = STATUS_UPDATE, um_node_id = nid, is_vacant = vac\<rparr>"

section \<open>The transceiver\<close>

text \<open>
  The RF24 driver is an external library. The model keeps the configuration that the calls of
  this program set (channel, reading pipes, writing pipe, listening mode) and the sequence of
  driver calls made. What the driver reports back (carrier sensed, payload acknowledged,
  payload available) is an input of the functions that ask for it.
\<close>

datatype radio_call =
    Begin
  | EnableDynamicPayloads
  | SetAutoAck bool
  | SetRetries nat nat
  | SetAddressWidth nat
  | SetPALevelMax
  | SetChannel u8
  | OpenReadingPipe nat u32
  | CloseReadingPipe nat
  | OpenWritingPipe u32
  | StartListening
  | StopListening
  | TestCarrier
  | Write update_message
  | Available
  | Read nat

record rf24 =
  channel :: u8
  reading_pipes :: "nat \<Rightarrow> u32 option"
  writing_pipe :: "u32 option"
  listening :: bool
  calls :: "radio_call list"

definition called :: "radio_call \<Rightarrow> rf24 \<Rightarrow> rf24" where
  "called c r = r\<lparr>calls := calls r @ [c]\<rparr>"

definition setChannel :: "u8 \<Rightarrow> rf24 \<Rightarrow> rf24" where
  "setChannel c r = called (SetChannel c) (r\<lparr>channel := c\<rparr>)"

definition openReadingPipe :: "nat \<Rightarrow> u32 \<Rightarrow> rf24 \<Rightarrow> rf24" where
  "openReadingPipe p a r = called (OpenReadingPipe p a) (r\<lparr>reading_pipes := (reading_pipes r)(p \<mapsto> a)\<rparr>)"

definition closeReadingPipe :: "nat \<Rightarrow> rf24 \<Rightarrow> rf24" where
  "closeReadingPipe p r = called (CloseReadingPipe p) (r\<lparr>reading_pipes := (reading_pipes r)(p := None)\<rparr>)"

definition openWritingPipe :: "u32 \<Rightarrow> rf24 \<Rightarrow> rf24" where
  "openWritingPipe a r = called (OpenWritingPipe a) (r\<lparr>writing_pipe := Some a\<rparr>)"

definition startListening :: "rf24 \<Rightarrow> rf24" where
  "startListening r = called StartListening (r\<lparr>listening := True\<rparr>)"

definition stopListening :: "rf24 \<Rightarrow> rf24" where
  "stopListening r = called StopListening (r\<lparr>listening := False\<rparr>)"

definition testCarrier :: "rf24 \<Rightarrow> rf24" where
  "testCarrier r = called TestCarrier r"

definition write_payload :: "update_message \<Rightarrow> rf24 \<Rightarrow> rf24" where
  "write_payload m r = called (Write m) r"

definition available :: "rf24 \<Rightarrow> rf24" where
  "available r = called Available r"

text \<open>
  \<^verbatim>\<open>radio.read(buffer, len)\<close>: the driver stores the first \<open>len\<close> bytes of the pending
  payload at the start of the buffer.
\<close>

definition read_payload :: "u8 list \<Rightarrow> nat \<Rightarrow> u8 list \<Rightarrow> u8 list" where
  "read_payload payload len buffer = take len payload @ drop (min len (length payload)) buffer"

text \<open>The number of \<^verbatim>\<open>radio.write\<close> and \<^verbatim>\<open>radio.read\<close> calls in a call sequence.\<close>

fun is_write :: "radio_call \<Rightarrow> bool" where
  "is_write (Write m) = True"
| "is_write c = False"

fun is_read :: "radio_call \<Rightarrow> bool" where
  "is_read (Read n) = True"
| "is_read c = False"

section \<open>Arduino core\<close>

text \<open>
  \<^verbatim>\<open>random(howsmall, howbig)\<close> of the Arduino core: \<^verbatim>\<open>random(howbig)\<close> is
  \<^verbatim>\<open>random() % howbig\<close> (0 when \<open>howbig\<close> is 0), and \<^verbatim>\<open>random(howsmall, howbig)\<close> is
  \<open>howsmall\<close> when \<open>howsmall \<ge> howbig\<close> and \<^verbatim>\<open>random(howbig - howsmall) + howsmall\<close>
  otherwise. The value \<open>r\<close> of the library's \<^verbatim>\<open>random()\<close>, which is never negative, is an
  input.
\<close>

definition arduino_random_max :: "nat \<Rightarrow> int \<Rightarrow> int" where
  "arduino_random_max r howbig = (if howbig = 0 then 0 else int r mod \<bar>howbig\<bar>)"

definition arduino_random :: "nat \<Rightarrow> int \<Rightarrow> int \<Rightarrow> int" where
  "arduino_random r howsmall howbig =
     (if howsmall \<ge> howbig then howsmall
      else arduino_random_max r (howbig - howsmall) + howsmall)"

section \<open>Sensor node\<close>

text \<open>
  Modelled from the spec: the enumeration \<^verbatim>\<open>tof_sensor_status_t\<close> is declared in
  \<^verbatim>\<open>sensornode.hpp\<close>, which is not among the sources. The spec gives it three values.
\<close>

datatype tof_sensor_status_t = UNKNOWN | VACANT | OCCUPIED

text \<open>The range status codes of the VL6180X driver that the node compares with.\<close>

definition VL6180X_ERROR_NONE :: u8 where
  "VL6180X_ERROR_NONE = 0"

definition VL6180X_ERROR_NOCONVERGE :: u8 where
  "VL6180X_ERROR_NOCONVERGE = 7"

text \<open>
  The fields of a \<^verbatim>\<open>SensorNode\<close>, and the list of the \<^verbatim>\<open>delay\<close> calls the node has made
  (milliseconds, oldest first).
\<close>

record sensor_node =
  node_id :: u8
  radio_address :: u32
  radio_channel :: u8
  sensor_status :: tof_sensor_status_t
  radio :: rf24
  delays :: "u32 list"

definition SensorNode :: "sensor_node \<Rightarrow> u8 \<Rightarrow> sensor_node" where
  "SensorNode this nid =
     this\<lparr>node_id := nid,
          radio_address := calculate_radio_address nid,
          radio_channel := calculate_radio_channel nid\<rparr>"

definition on_radio :: "(rf24 \<Rightarrow> rf24) \<Rightarrow> sensor_node \<Rightarrow> sensor_node" where
  "on_radio f n = n\<lparr>radio := f (radio n)\<rparr>"

definition delay :: "u32 \<Rightarrow> sensor_node \<Rightarrow> sensor_node" where
  "delay ms n = n\<lparr>delays := delays n @ [ms]\<rparr>"

text \<open>
  \<^verbatim>\<open>SensorNode::init\<close>; \<open>sensor_ok\<close> and \<open>radio_ok\<close> are the results of
  \<^verbatim>\<open>sensor.begin()\<close> and \<^verbatim>\<open>radio.begin()\<close>.
\<close>

definition init :: "bool \<Rightarrow> bool \<Rightarrow> sensor_node \<Rightarrow> bool \<times> sensor_node" where
  "init sensor_ok radio_ok n =
     (if False = sensor_ok then (False, n)
      else let n1 = on_radio (called Begin) n in
        if False = radio_ok then (False, n1)
        else let
          n2 = on_radio (called EnableDynamicPayloads) n1;
          n3 = on_radio (called (SetAutoAck True)) n2;
          n4 = on_radio (called (SetRetries FAILED_SEND_DELAY MAX_SEND_ATTEMPTS)) n3;
          n5 = on_radio (called (SetAddressWidth RF24_ADDRESS_WIDTH)) n4;
          n6 = on_radio (called SetPALevelMax) n5;
          n7 = on_radio (setChannel (radio_channel n6)) n6;
          n8 = on_radio (openReadingPipe RF24_READING_PIPE (radio_address n7)) n7;
          n9 = on_radio startListening n8
        in (True, n9))"

definition get_sensor_status :: "sensor_node \<Rightarrow> tof_sensor_status_t" where
  "get_sensor_status n = sensor_status n"

text \<open>
  \<^verbatim>\<open>SensorNode::is_sensor_status_changed\<close>; \<open>status\<close> is the value that
  \<^verbatim>\<open>sensor.readRangeStatus()\<close> returns.
\<close>

definition is_sensor_status_changed :: "u8 \<Rightarrow> sensor_node \<Rightarrow> bool \<times> sensor_node" where
  "is_sensor_status_changed status n =
     (if VL6180X_ERROR_NONE = status then
        (if OCCUPIED = sensor_status n then (False, n)
         else (True, n\<lparr>sensor_status := OCCUPIED\<rparr>))
      else if VL6180X_ERROR_NOCONVERGE = status then
        (if VACANT = sensor_status n then (False, n)
         else (True, n\<lparr>sensor_status := VACANT\<rparr>))
      else (False, n))"

text \<open>
  The status the raw sensor status is mapped to, if any (the two recognised codes of
  \<^verbatim>\<open>is_sensor_status_changed\<close>).
\<close>

definition mapped_status :: "u8 \<Rightarrow> tof_sensor_status_t option" where
  "mapped_status status =
     (if VL6180X_ERROR_NONE = status then Some OCCUPIED
      else if VL6180X_ERROR_NOCONVERGE = status then Some VACANT
      else None)"

text \<open>
  The backoff of the carrier-sense loop:
  \<^verbatim>\<open>uint32_t channel_delay = random(CHANNEL_BUSY_DELAY_MIN_MS, CHANNEL_BUSY_DELAY_MAX_MS)\<close>.
\<close>

definition channel_delay :: "nat \<Rightarrow> u32" where
  "channel_delay r =
     word_of_int (arduino_random r CHANNEL_BUSY_DELAY_MIN_MS CHANNEL_BUSY_DELAY_MAX_MS)"

text \<open>
  The carrier-sense loop of \<^verbatim>\<open>SensorNode::transmit_update\<close>, from iteration \<open>i\<close> on.
  \<open>carrier i\<close> is what \<^verbatim>\<open>radio.testCarrier()\<close> returns in iteration \<open>i\<close> and \<open>rnd i\<close> the
  value of \<^verbatim>\<open>random()\<close> drawn there. The loop counter stays below 11, so the 8-bit counter
  never wraps. The result is the final value of \<^verbatim>\<open>is_channel_open\<close>.
\<close>

function carrier_sense_loop ::
  "(nat \<Rightarrow> bool) \<Rightarrow> (nat \<Rightarrow> nat) \<Rightarrow> nat \<Rightarrow> bool \<Rightarrow> sensor_node \<Rightarrow> bool \<times> sensor_node" where
  "carrier_sense_loop carrier rnd i is_channel_open n =
     (if i < CHANNEL_CHECKS_MAX then
        (let n1 = on_radio testCarrier n;
             is_open = (False = carrier i)
         in if True = is_open then (is_open, n1)
            else carrier_sense_loop carrier rnd (i + 1) is_open (delay (channel_delay (rnd i)) n1))
      else (is_channel_open, n))"
  by pat_completeness auto
termination
  by (relation "measure (\<lambda>(carrier, rnd, i, is_channel_open, n). CHANNEL_CHECKS_MAX - i)") auto

declare carrier_sense_loop.simps [simp del]

text \<open>
  \<^verbatim>\<open>SensorNode::transmit_update(UpdateMessage*)\<close>; \<open>ack\<close> is what \<^verbatim>\<open>radio.write\<close> returns
  if it is called.
\<close>

definition transmit_update ::
  "(nat \<Rightarrow> bool) \<Rightarrow> (nat \<Rightarrow> nat) \<Rightarrow> bool \<Rightarrow> update_message \<Rightarrow> sensor_node \<Rightarrow> bool \<times> sensor_node" where
  "transmit_update carrier rnd ack msg n =
     (let rx = get_rx_id msg;
          rx_address = calculate_radio_address rx;
          rx_channel = calculate_radio_channel rx;
          n1 = on_radio (setChannel rx_channel) n;
          (is_channel_open, n2) = carrier_sense_loop carrier rnd 0 False n1
      in if False = is_channel_open then
           (let n3 = on_radio (setChannel (radio_channel n2)) n2;
                n4 = on_radio (openReadingPipe RF24_READING_PIPE (radio_address n3)) n3
            in (False, n4))
         else
           (let n3 = on_radio stopListening n2;
                n4 = on_radio (closeReadingPipe RF24_READING_PIPE) n3;
                n5 = on_radio (openWritingPipe rx_address) n4;
                n6 = on_radio (write_payload msg) n5;
                is_sent = ack;
                n7 = on_radio (setChannel (radio_channel n6)) n6;
                n8 = on_radio (openReadingPipe RF24_READING_PIPE (radio_address n7)) n7;
                n9 = on_radio startListening n8
            in (is_sent, n9)))"

text \<open>\<^verbatim>\<open>SensorNode::transmit_update(uint8_t)\<close>.\<close>

definition transmit_update_to ::
  "(nat \<Rightarrow> bool) \<Rightarrow> (nat \<Rightarrow> nat) \<Rightarrow> bool \<Rightarrow> u8 \<Rightarrow> sensor_node \<Rightarrow> bool \<times> sensor_node" where
  "transmit_update_to carrier rnd ack rx_node_id n =
     (let vacant = (sensor_status n = VACANT);
          msg = UpdateMessage rx_node_id (node_id n) (node_id n) vacant
      in transmit_update carrier rnd ack msg n)"

text \<open>
  \<^verbatim>\<open>SensorNode::is_message\<close> and \<^verbatim>\<open>SensorNode::read_message\<close>; \<open>avail\<close> is what
  \<^verbatim>\<open>radio.available()\<close> returns and \<open>payload\<close> the payload pending in the driver. The
  result holds the return value, the caller's buffer and the node.
\<close>

definition is_message :: "bool \<Rightarrow> sensor_node \<Rightarrow> bool \<times> sensor_node" where
  "is_message avail n = (avail, on_radio available n)"

definition read_message ::
  "bool \<Rightarrow> u8 list \<Rightarrow> u8 list \<Rightarrow> u8 \<Rightarrow> sensor_node \<Rightarrow> bool \<times> u8 list \<times> sensor_node" where
  "read_message avail payload buffer len n =
     (let n1 = on_radio available n
      in if False = avail then (False, buffer, n1)
         else (True, read_payload payload (unat len) buffer,
               on_radio (called (Read (unat len))) n1))"

definition get_id :: "sensor_node \<Rightarrow> u8" where
  "get_id n = node_id n"

text \<open>
  The resting configuration of a node's radio: tuned to the node's own channel, the reading
  pipe open on the node's own address, listening.
\<close>

definition at_rest :: "sensor_node \<Rightarrow> bool" where
  "at_rest n \<longleftrightarrow>
     channel (radio n) = radio_channel n \<and>
     reading_pipes (radio n) RF24_READING_PIPE = Some (radio_address n) \<and>
     listening (radio n)"

text \<open>
  The states a node's program can be in when it calls a member function: the state in which
  a successful \<^verbatim>\<open>init\<close> leaves a node, and every state that a call of a public member
  function that changes or uses the node makes from such a state.
\<close>

inductive reachable :: "sensor_node \<Rightarrow> bool" where
  after_init:
    "init sensor_ok radio_ok n0 = (True, n) \<Longrightarrow> reachable n"
| after_is_sensor_status_changed:
    "reachable n \<Longrightarrow> is_sensor_status_changed status n = (changed, n') \<Longrightarrow> reachable n'"
| after_transmit_update:
    "reachable n \<Longrightarrow> transmit_update carrier rnd ack msg n = (sent, n') \<Longrightarrow> reachable n'"
| after_transmit_update_to:
    "reachable n \<Longrightarrow> transmit_update_to carrier rnd ack rx_node_id n = (sent, n') \<Longrightarrow>
       reachable n'"
| after_is_message:
    "reachable n \<Longrightarrow> is_message avail n = (res, n') \<Longrightarrow> reachable n'"
| after_read_message:
    "reachable n \<Longrightarrow> read_message avail payload buffer len n = (res, buffer', n') \<Longrightarrow>
       reachable n'"

section \<open>Base station\<close>

text \<open>
  The header \<^verbatim>\<open>basestation.hpp\<close> declares the registry
  \<^verbatim>\<open>bool node_status[SENSOR_NODE_NUM] = {0}\<close>; the bodies of the member functions are not
  among the sources. An access to a C array outside its bounds is a fault of the model.
\<close>

datatype fault = OutOfBounds

definition array_read :: "'a list \<Rightarrow> nat \<Rightarrow> fault + 'a" where
  "array_read xs i = (if i < length xs then Inr (xs ! i) else Inl OutOfBounds)"

definition array_write :: "'a list \<Rightarrow> nat \<Rightarrow> 'a \<Rightarrow> fault + 'a list" where
  "array_write xs i v = (if i < length xs then Inr (xs[i := v]) else Inl OutOfBounds)"

record base_station =
  bs_node_id :: u8
  node_status :: "bool list"

text \<open>The default member initialisers of the class: every registry entry is \<^verbatim>\<open>false\<close>.\<close>

definition base_station_default :: base_station where
  "base_station_default = \<lparr>bs_node_id = 0, node_status = replicate SENSOR_NODE_NUM False\<rparr>"

text \<open>
  Modelled from the spec: the body of \<^verbatim>\<open>BaseStation::is_valid_sensor_node\<close> is missing.
  The spec: true iff the id is in \<open>[1, N]\<close>.
\<close>

definition is_valid_sensor_node :: "u8 \<Rightarrow> bool" where
  "is_valid_sensor_node nid \<longleftrightarrow> 1 \<le> unat nid \<and> unat nid \<le> SENSOR_NODE_NUM"

text \<open>
  Modelled from the spec: the body of \<^verbatim>\<open>BaseStation::update_node_status\<close> is missing.
  The spec: validates the id, then overwrites the registry entry; returns whether the write
  occurred. The entry of node id \<open>k\<close> of \<open>[1, N]\<close> is element \<open>k - 1\<close> of the array of \<open>N\<close>
  entries.
\<close>

definition update_node_status :: "u8 \<Rightarrow> bool \<Rightarrow> base_station \<Rightarrow> fault + bool \<times> base_station" where
  "update_node_status nid vacant bs =
     (if \<not> is_valid_sensor_node nid then Inr (False, bs)
      else case array_write (node_status bs) (unat nid - 1) vacant of
             Inl e \<Rightarrow> Inl e
           | Inr xs \<Rightarrow> Inr (True, bs\<lparr>node_status := xs\<rparr>))"

text \<open>
  Modelled from the spec: the body of \<^verbatim>\<open>BaseStation::get_node_status\<close> is missing.
  The spec: validates the id, returns the stored vacancy flag; an invalid id fails with a
  false return.
\<close>

definition get_node_status :: "u8 \<Rightarrow> base_station \<Rightarrow> fault + bool" where
  "get_node_status nid bs =
     (if \<not> is_valid_sensor_node nid then Inr False
      else array_read (node_status bs) (unat nid - 1))"

text \<open>
  Modelled from the spec: the body of \<^verbatim>\<open>BaseStation::num_vacant\<close> is missing.
  The spec: scans the registry, returns the count of entries currently marked vacant. The
  count is the 8-bit return value of the declaration.
\<close>

function num_vacant_loop :: "nat \<Rightarrow> u8 \<Rightarrow> base_station \<Rightarrow> fault + u8" where
  "num_vacant_loop i count bs =
     (if i < SENSOR_NODE_NUM then
        (case array_read (node_status bs) i of
           Inl e \<Rightarrow> Inl e
         | Inr v \<Rightarrow> num_vacant_loop (i + 1) (if v then count + 1 else count) bs)
      else Inr count)"
  by pat_completeness auto
termination
  by (relation "measure (\<lambda>(i, count, bs). SENSOR_NODE_NUM - i)") auto

declare num_vacant_loop.simps [simp del]

definition num_vacant :: "base_station \<Rightarrow> fault + u8" where
  "num_vacant bs = num_vacant_loop 0 0 bs"

text \<open>
  A sequence of \<^verbatim>\<open>update_node_status\<close> calls, each given as node id and flag, run in order;
  a fault ends the run.
\<close>

fun update_all :: "(u8 \<times> bool) list \<Rightarrow> base_station \<Rightarrow> fault + base_station" where
  "update_all [] bs = Inr bs"
| "update_all ((nid, vacant) # us) bs =
     (case update_node_status nid vacant bs of
        Inl e \<Rightarrow> Inl e
      | Inr (ok, bs') \<Rightarrow> update_all us bs')"

section \<open>Properties of the address and channel derivation\<close>

lemma memcpy_u32_repeated: "memcpy_u32 [b, b, b, b] = ucast b * 0x01010101"
  by (simp add: push_bit_eq_mult)

lemma unat_u8_less: "unat (b :: u8) < 256"
  using unsigned_less [of b, where 'a = nat] by simp

lemma unat_ucast_u8_u32: "unat (ucast (b :: u8) :: u32) = unat b"
  using unat_u8_less [of b] by (simp add: unsigned_ucast_eq take_bit_nat_eq_self)

lemma unat_memcpy_u32_repeated: "unat (memcpy_u32 [b, b, b, b]) = unat b * 16843009"
proof -
  have lt: "unat b < 256" by (rule unat_u8_less)
  have "unat (ucast b :: u32) * unat (0x01010101 :: u32) < 2 ^ LENGTH(32)"
    using lt by (simp add: unat_ucast_u8_u32)
  then have "unat ((ucast b :: u32) * 0x01010101) = unat (ucast b :: u32) * unat (0x01010101 :: u32)"
    by (simp only: unat_mult_lem)
  then show ?thesis
    unfolding memcpy_u32_repeated unat_ucast_u8_u32 by simp
qed

lemma unat_address_byte: "unat (address_byte a k) = (unat a div 2 ^ (8 * k)) mod 256"
  unfolding address_byte_def unsigned_ucast_eq unat_drop_bit_eq
  by (simp add: take_bit_eq_mod drop_bit_eq_div)

lemma low_digit: "n < 256 \<Longrightarrow> (n + 256 * m) mod 256 = (n::nat)"
  by simp

lemma high_digits: "n < 256 \<Longrightarrow> (n + 256 * m) div 256 = (m::nat)"
  by simp

lemma repeated_byte_digits:
  assumes "n < (256::nat)"
  shows "n * 16843009 mod 256 = n"
    and "n * 16843009 div 256 mod 256 = n"
    and "n * 16843009 div 65536 mod 256 = n"
    and "n * 16843009 div 16777216 mod 256 = n"
proof -
  have e: "n * 16843009 = n + 256 * (n + 256 * (n + 256 * (n + 256 * 0)))" by simp
  have d2: "x div 65536 = x div 256 div 256" for x :: nat
    by (simp add: div_mult2_eq [symmetric])
  have d3: "x div 16777216 = x div 256 div 256 div 256" for x :: nat
    by (simp add: div_mult2_eq [symmetric])
  show "n * 16843009 mod 256 = n"
    unfolding e by (simp only: low_digit [OF assms])
  show "n * 16843009 div 256 mod 256 = n"
    unfolding e by (simp only: low_digit [OF assms] high_digits [OF assms])
  show "n * 16843009 div 65536 mod 256 = n"
    unfolding e d2 by (simp only: low_digit [OF assms] high_digits [OF assms])
  show "n * 16843009 div 16777216 mod 256 = n"
    unfolding e d3 by (simp only: low_digit [OF assms] high_digits [OF assms])
qed

lemma address_byte_repeated:
  assumes k: "k < 4"
  shows "address_byte (memcpy_u32 [b, b, b, b]) k = b"
proof -
  have lt: "unat b < 256" by (rule unat_u8_less)
  from k have "k = 0 \<or> k = 1 \<or> k = 2 \<or> k = 3" by arith
  then have "(unat b * 16843009 div 2 ^ (8 * k)) mod 256 = unat b"
    using repeated_byte_digits [OF lt] by (elim disjE) simp_all
  then have "unat (address_byte (memcpy_u32 [b, b, b, b]) k) = unat b"
    by (simp only: unat_address_byte unat_memcpy_u32_repeated)
  then show ?thesis by (simp only: word_unat_eq_iff)
qed

lemma memcpy_u32_repeated_inj:
  "memcpy_u32 [a, a, a, a] = memcpy_u32 [b, b, b, b] \<Longrightarrow> a = b"
  using address_byte_repeated [of 0 a] address_byte_repeated [of 0 b] by simp

lemma sentinel_bytes:
  "address_byte BASE_STATION_ADDRESS 0 = 0xA5"
  "address_byte BASE_STATION_ADDRESS 1 = 0xDE"
  by (simp_all add: address_byte_def BASE_STATION_ADDRESS_def drop_bit_eq_div)

lemma repeated_not_sentinel: "memcpy_u32 [b, b, b, b] \<noteq> BASE_STATION_ADDRESS"
proof
  assume eq: "memcpy_u32 [b, b, b, b] = BASE_STATION_ADDRESS"
  have "address_byte (memcpy_u32 [b, b, b, b]) 0 = address_byte (memcpy_u32 [b, b, b, b]) 1"
    by (simp only: address_byte_repeated)
  then show False unfolding eq sentinel_bytes by simp
qed

lemma calculate_radio_address_base:
  "calculate_radio_address BASE_STATION_ID = BASE_STATION_ADDRESS"
  by (simp add: calculate_radio_address_def)

lemma calculate_radio_address_other:
  "BASE_STATION_ID \<noteq> a \<Longrightarrow> calculate_radio_address a = memcpy_u32 [a, a, a, a]"
  by (simp add: calculate_radio_address_def del: memcpy_u32.simps)

lemma calculate_radio_address_inj:
  assumes eq: "calculate_radio_address a = calculate_radio_address b"
  shows "a = b"
proof (cases "BASE_STATION_ID = a")
  case a0: True
  show ?thesis
  proof (cases "BASE_STATION_ID = b")
    case True
    with a0 show ?thesis by simp
  next
    case False
    from eq have "memcpy_u32 [b, b, b, b] = BASE_STATION_ADDRESS"
      unfolding a0 [symmetric] calculate_radio_address_base
        calculate_radio_address_other [OF False] by (rule sym)
    with repeated_not_sentinel show ?thesis by blast
  qed
next
  case a1: False
  show ?thesis
  proof (cases "BASE_STATION_ID = b")
    case True
    from eq have "memcpy_u32 [a, a, a, a] = BASE_STATION_ADDRESS"
      unfolding True [symmetric] calculate_radio_address_base
        calculate_radio_address_other [OF a1] .
    with repeated_not_sentinel show ?thesis by blast
  next
    case False
    from eq have "memcpy_u32 [a, a, a, a] = memcpy_u32 [b, b, b, b]"
      unfolding calculate_radio_address_other [OF a1]
        calculate_radio_address_other [OF False] .
    then show ?thesis by (rule memcpy_u32_repeated_inj)
  qed
qed

text \<open>
  Claim C3. The base station's id 0 has the reserved address \<open>0xBAD1DEA5\<close>. For every other
  id each of the four bytes of the address equals the id. No two different ids (of all 256,
  so of the sensor-node ids 1 to 10 too) have the same address, and no address built by
  repeating a byte equals the reserved one.
\<close>

theorem calculate_radio_address_correct:
  "calculate_radio_address 0 = 0xBAD1DEA5
   \<and> (\<forall>nid. nid \<noteq> BASE_STATION_ID \<longrightarrow>
         (\<forall>k < RF24_ADDRESS_WIDTH. address_byte (calculate_radio_address nid) k = nid))
   \<and> (\<forall>a b. a \<noteq> b \<longrightarrow> calculate_radio_address a \<noteq> calculate_radio_address b)
   \<and> (\<forall>nid. memcpy_u32 [nid, nid, nid, nid] \<noteq> calculate_radio_address BASE_STATION_ID)"
proof (intro conjI allI impI)
  show "calculate_radio_address 0 = 0xBAD1DEA5"
    by (simp add: calculate_radio_address_def BASE_STATION_ID_def BASE_STATION_ADDRESS_def)
next
  fix nid k
  assume "nid \<noteq> BASE_STATION_ID" and "k < RF24_ADDRESS_WIDTH"
  then show "address_byte (calculate_radio_address nid) k = nid"
    by (simp add: calculate_radio_address_def RF24_ADDRESS_WIDTH_def address_byte_repeated
        del: memcpy_u32.simps)
next
  fix a b :: u8
  assume "a \<noteq> b"
  then show "calculate_radio_address a \<noteq> calculate_radio_address b"
    using calculate_radio_address_inj by blast
next
  fix nid
  show "memcpy_u32 [nid, nid, nid, nid] \<noteq> calculate_radio_address BASE_STATION_ID"
    using repeated_not_sentinel [of nid] by (simp add: calculate_radio_address_def)
qed

theorem calculate_radio_address_correct_witness:
  "(3::u8) \<noteq> BASE_STATION_ID \<and> 2 < RF24_ADDRESS_WIDTH
   \<and> address_byte (calculate_radio_address 3) 2 = 3
   \<and> (1::u8) \<noteq> 10 \<and> calculate_radio_address 1 \<noteq> calculate_radio_address 10"
proof -
  have h1: "(3::u8) \<noteq> BASE_STATION_ID" by (simp add: BASE_STATION_ID_def)
  have h2: "2 < RF24_ADDRESS_WIDTH" by (simp add: RF24_ADDRESS_WIDTH_def)
  have h3: "(1::u8) \<noteq> 10" by simp
  from calculate_radio_address_correct h1 h2 h3 show ?thesis by blast
qed

lemma unat_calculate_radio_channel:
  "unat (calculate_radio_channel nid) = (unat nid * 5) mod 256"
  by (simp add: calculate_radio_channel_def RF24_CHANNEL_SPACING_def unat_word_ariths)

lemma unat_calculate_radio_channel_small:
  "unat nid \<le> 51 \<Longrightarrow> unat (calculate_radio_channel nid) = unat nid * 5"
  by (simp add: unat_calculate_radio_channel)

text \<open>
  Claim C4. The channel of an id is the id times the spacing constant 5 (at least 2), as
  8-bit values; as a number it is five times the id for every id up to 51, so for every id
  of the population 0 to 10. The channel of the largest id 10 is 50, and every channel of
  the population is at most 125. The channels of two different ids of the population differ
  by at least 5, so by at least 2.
\<close>

theorem calculate_radio_channel_correct:
  "calculate_radio_channel nid = nid * RF24_CHANNEL_SPACING
   \<and> RF24_CHANNEL_SPACING = 5 \<and> 2 \<le> unat RF24_CHANNEL_SPACING
   \<and> unat (calculate_radio_channel nid) = (unat nid * unat RF24_CHANNEL_SPACING) mod 256
   \<and> (unat nid \<le> 51 \<longrightarrow>
         unat (calculate_radio_channel nid) = unat nid * unat RF24_CHANNEL_SPACING)
   \<and> unat (calculate_radio_channel (of_nat SENSOR_NODE_NUM)) = 50
   \<and> (unat nid \<le> SENSOR_NODE_NUM \<longrightarrow> unat (calculate_radio_channel nid) \<le> 125)
   \<and> (\<forall>a b. a \<noteq> b \<and> unat a \<le> SENSOR_NODE_NUM \<and> unat b \<le> SENSOR_NODE_NUM \<longrightarrow>
         unat (calculate_radio_channel a) + unat RF24_CHANNEL_SPACING \<le> unat (calculate_radio_channel b)
         \<or> unat (calculate_radio_channel b) + unat RF24_CHANNEL_SPACING \<le> unat (calculate_radio_channel a))"
proof (intro conjI allI impI)
  show "calculate_radio_channel nid = nid * RF24_CHANNEL_SPACING"
    by (simp add: calculate_radio_channel_def)
  show "RF24_CHANNEL_SPACING = 5"
    by (simp add: RF24_CHANNEL_SPACING_def)
  show "2 \<le> unat RF24_CHANNEL_SPACING"
    by (simp add: RF24_CHANNEL_SPACING_def)
  show "unat (calculate_radio_channel nid) = (unat nid * unat RF24_CHANNEL_SPACING) mod 256"
    by (simp add: unat_calculate_radio_channel RF24_CHANNEL_SPACING_def)
  show "unat (calculate_radio_channel nid) = unat nid * unat RF24_CHANNEL_SPACING"
    if "unat nid \<le> 51"
    using that by (simp add: unat_calculate_radio_channel_small RF24_CHANNEL_SPACING_def)
  show "unat (calculate_radio_channel (of_nat SENSOR_NODE_NUM)) = 50"
    by (simp add: unat_calculate_radio_channel SENSOR_NODE_NUM_def)
  show "unat (calculate_radio_channel nid) \<le> 125" if "unat nid \<le> SENSOR_NODE_NUM"
    using that by (simp add: unat_calculate_radio_channel_small SENSOR_NODE_NUM_def)
next
  fix a b :: u8
  assume h: "a \<noteq> b \<and> unat a \<le> SENSOR_NODE_NUM \<and> unat b \<le> SENSOR_NODE_NUM"
  then have ne: "unat a \<noteq> unat b"
    by (simp add: word_unat_eq_iff)
  from h have ca: "unat (calculate_radio_channel a) = unat a * 5"
    and cb: "unat (calculate_radio_channel b) = unat b * 5"
    by (simp_all add: unat_calculate_radio_channel_small SENSOR_NODE_NUM_def)
  from ne show "unat (calculate_radio_channel a) + unat RF24_CHANNEL_SPACING
        \<le> unat (calculate_radio_channel b)
      \<or> unat (calculate_radio_channel b) + unat RF24_CHANNEL_SPACING
        \<le> unat (calculate_radio_channel a)"
    unfolding ca cb by (simp add: RF24_CHANNEL_SPACING_def) arith
qed

theorem calculate_radio_channel_correct_witness:
  "unat (10::u8) \<le> 51 \<and> unat (10::u8) \<le> SENSOR_NODE_NUM
   \<and> unat (calculate_radio_channel 10) = unat (10::u8) * unat RF24_CHANNEL_SPACING
   \<and> unat (calculate_radio_channel 10) \<le> 125
   \<and> ((9::u8) \<noteq> 10 \<and> unat (9::u8) \<le> SENSOR_NODE_NUM \<and> unat (10::u8) \<le> SENSOR_NODE_NUM)
   \<and> (unat (calculate_radio_channel 9) + unat RF24_CHANNEL_SPACING \<le> unat (calculate_radio_channel 10)
       \<or> unat (calculate_radio_channel 10) + unat RF24_CHANNEL_SPACING \<le> unat (calculate_radio_channel 9))"
proof -
  have h1: "unat (10::u8) \<le> 51" by simp
  have h2: "unat (10::u8) \<le> SENSOR_NODE_NUM" by (simp add: SENSOR_NODE_NUM_def)
  have h3: "(9::u8) \<noteq> 10 \<and> unat (9::u8) \<le> SENSOR_NODE_NUM \<and> unat (10::u8) \<le> SENSOR_NODE_NUM"
    by (simp add: SENSOR_NODE_NUM_def)
  from calculate_radio_channel_correct [of 10] h1 h2 h3 show ?thesis by blast
qed

section \<open>Properties of the message model\<close>

lemma get_type_no_result: "get_type m \<noteq> Some t"
proof
  assume ret: "get_type m = Some t"
  show False
  proof (rule get_type.raw_induct [where P = "\<lambda>m t. False", OF _ ret])
    fix f :: "message \<Rightarrow> message_t option" and x y
    assume "\<And>x' y'. f x' = Some y' \<Longrightarrow> False" and "f x = Some y"
    then show False by blast
  qed
qed

text \<open>
  Claim C7. The accessor \<^verbatim>\<open>Message::get_type\<close> is claimed to return the stored kind of
  every constructed message. The body calls the accessor itself again, so no call returns:
  in the model the call has no result, for the message of every receiver, sender and kind.
\<close>

theorem get_type_never_returns:
  "get_type (Message rx tx t) = None"
  using get_type_no_result [of "Message rx tx t"] by (cases "get_type (Message rx tx t)") auto

section \<open>Properties of the sensor node\<close>

lemma is_sensor_status_changed_mapped:
  "is_sensor_status_changed status n =
     (case mapped_status status of
        None \<Rightarrow> (False, n)
      | Some s \<Rightarrow> if s = sensor_status n then (False, n) else (True, n\<lparr>sensor_status := s\<rparr>))"
  by (auto simp: is_sensor_status_changed_def mapped_status_def)

text \<open>
  Claim C6. The raw status \<^verbatim>\<open>VL6180X_ERROR_NONE\<close> is mapped to OCCUPIED and
  \<^verbatim>\<open>VL6180X_ERROR_NOCONVERGE\<close> to VACANT. For any other raw status the call returns false
  and leaves the node as it was. For a mapped status the call returns true exactly when it
  differs from the stored status; the stored status is then the mapped one, and nothing else
  of the node changes. When the call returns false the node is unchanged.
\<close>

theorem is_sensor_status_changed_correct:
  "mapped_status VL6180X_ERROR_NONE = Some OCCUPIED
   \<and> mapped_status VL6180X_ERROR_NOCONVERGE = Some VACANT
   \<and> (status \<noteq> VL6180X_ERROR_NONE \<and> status \<noteq> VL6180X_ERROR_NOCONVERGE \<longrightarrow>
         mapped_status status = None \<and> is_sensor_status_changed status n = (False, n))
   \<and> (fst (is_sensor_status_changed status n) \<longleftrightarrow>
         (\<exists>s. mapped_status status = Some s \<and> s \<noteq> sensor_status n))
   \<and> (\<forall>s. mapped_status status = Some s \<and> s \<noteq> sensor_status n \<longrightarrow>
         is_sensor_status_changed status n = (True, n\<lparr>sensor_status := s\<rparr>))
   \<and> (\<not> fst (is_sensor_status_changed status n) \<longrightarrow>
         snd (is_sensor_status_changed status n) = n)"
proof (intro conjI allI impI)
  show "mapped_status VL6180X_ERROR_NONE = Some OCCUPIED"
    by (simp add: mapped_status_def)
  show "mapped_status VL6180X_ERROR_NOCONVERGE = Some VACANT"
    by (simp add: mapped_status_def VL6180X_ERROR_NONE_def VL6180X_ERROR_NOCONVERGE_def)
  show "mapped_status status = None"
    if "status \<noteq> VL6180X_ERROR_NONE \<and> status \<noteq> VL6180X_ERROR_NOCONVERGE"
    using that by (auto simp: mapped_status_def)
  show "is_sensor_status_changed status n = (False, n)"
    if "status \<noteq> VL6180X_ERROR_NONE \<and> status \<noteq> VL6180X_ERROR_NOCONVERGE"
    using that by (auto simp: is_sensor_status_changed_def)
  show "fst (is_sensor_status_changed status n) \<longleftrightarrow>
      (\<exists>s. mapped_status status = Some s \<and> s \<noteq> sensor_status n)"
    by (cases "mapped_status status") (auto simp: is_sensor_status_changed_mapped)
  show "is_sensor_status_changed status n = (True, n\<lparr>sensor_status := s\<rparr>)"
    if "mapped_status status = Some s \<and> s \<noteq> sensor_status n" for s
    using that by (simp add: is_sensor_status_changed_mapped)
  show "snd (is_sensor_status_changed status n) = n"
    if "\<not> fst (is_sensor_status_changed status n)"
    using that by (cases "mapped_status status")
      (auto simp: is_sensor_status_changed_mapped split: if_splits)
qed

theorem is_sensor_status_changed_correct_witness:
  "((11::u8) \<noteq> VL6180X_ERROR_NONE \<and> (11::u8) \<noteq> VL6180X_ERROR_NOCONVERGE)
   \<and> is_sensor_status_changed 11
        \<lparr>node_id = 2, radio_address = 0x02020202, radio_channel = 10, sensor_status = OCCUPIED,
         radio = \<lparr>channel = 10, reading_pipes = Map.empty, writing_pipe = None,
                  listening = True, calls = []\<rparr>, delays = []\<rparr>
       = (False,
        \<lparr>node_id = 2, radio_address = 0x02020202, radio_channel = 10, sensor_status = OCCUPIED,
         radio = \<lparr>channel = 10, reading_pipes = Map.empty, writing_pipe = None,
                  listening = True, calls = []\<rparr>, delays = []\<rparr>)
   \<and> (mapped_status 7 = Some VACANT \<and> VACANT \<noteq> sensor_status
        \<lparr>node_id = 2, radio_address = 0x02020202, radio_channel = 10, sensor_status = OCCUPIED,
         radio = \<lparr>channel = 10, reading_pipes = Map.empty, writing_pipe = None,
                  listening = True, calls = []\<rparr>, delays = []\<rparr>)
   \<and> is_sensor_status_changed 7
        \<lparr>node_id = 2, radio_address = 0x02020202, radio_channel = 10, sensor_status = OCCUPIED,
         radio = \<lparr>channel = 10, reading_pipes = Map.empty, writing_pipe = None,
                  listening = True, calls = []\<rparr>, delays = []\<rparr>
       = (True,
        \<lparr>node_id = 2, radio_address = 0x02020202, radio_channel = 10, sensor_status = VACANT,
         radio = \<lparr>channel = 10, reading_pipes = Map.empty, writing_pipe = None,
                  listening = True, calls = []\<rparr>, delays = []\<rparr>)
   \<and> \<not> fst (is_sensor_status_changed 0
        \<lparr>node_id = 2, radio_address = 0x02020202, radio_channel = 10, sensor_status = OCCUPIED,
         radio = \<lparr>channel = 10, reading_pipes = Map.empty, writing_pipe = None,
                  listening = True, calls = []\<rparr>, delays = []\<rparr>)
   \<and> snd (is_sensor_status_changed 0
        \<lparr>node_id = 2, radio_address = 0x02020202, radio_channel = 10, sensor_status = OCCUPIED,
         radio = \<lparr>channel = 10, reading_pipes = Map.empty, writing_pipe = None,
                  listening = True, calls = []\<rparr>, delays = []\<rparr>)
       = \<lparr>node_id = 2, radio_address = 0x02020202, radio_channel = 10, sensor_status = OCCUPIED,
         radio = \<lparr>channel = 10, reading_pipes = Map.empty, writing_pipe = None,
                  listening = True, calls = []\<rparr>, delays = []\<rparr>"
proof -
  define n where "n = \<lparr>node_id = 2, radio_address = 0x02020202, radio_channel = 10,
    sensor_status = OCCUPIED,
    radio = \<lparr>channel = 10, reading_pipes = Map.empty, writing_pipe = None,
             listening = True, calls = []\<rparr>, delays = []\<rparr>"
  have h1: "(11::u8) \<noteq> VL6180X_ERROR_NONE \<and> (11::u8) \<noteq> VL6180X_ERROR_NOCONVERGE"
    by (simp add: VL6180X_ERROR_NONE_def VL6180X_ERROR_NOCONVERGE_def)
  have h2: "mapped_status 7 = Some VACANT \<and> VACANT \<noteq> sensor_status n"
    by (simp add: mapped_status_def VL6180X_ERROR_NONE_def VL6180X_ERROR_NOCONVERGE_def n_def)
  have h3: "\<not> fst (is_sensor_status_changed 0 n)"
    by (simp add: is_sensor_status_changed_def VL6180X_ERROR_NONE_def n_def)
  have a: "is_sensor_status_changed 11 n = (False, n)"
    using is_sensor_status_changed_correct [of 11 n] h1 by blast
  have b: "is_sensor_status_changed 7 n = (True, n\<lparr>sensor_status := VACANT\<rparr>)"
    using is_sensor_status_changed_correct [of 7 n] h2 by blast
  have c: "snd (is_sensor_status_changed 0 n) = n"
    using is_sensor_status_changed_correct [of 0 n] h3 by blast
  from h1 h2 h3 a b c show ?thesis
    unfolding n_def by simp
qed

lemma arduino_random_backoff:
  "arduino_random r CHANNEL_BUSY_DELAY_MIN_MS CHANNEL_BUSY_DELAY_MAX_MS = int (r mod 75 + 25)"
  by (simp add: arduino_random_def arduino_random_max_def CHANNEL_BUSY_DELAY_MIN_MS_def
      CHANNEL_BUSY_DELAY_MAX_MS_def zmod_int)

lemma channel_delay_of_nat: "channel_delay r = of_nat (r mod 75 + 25)"
  unfolding channel_delay_def arduino_random_backoff by simp

lemma unat_channel_delay: "unat (channel_delay r) = r mod 75 + 25"
proof -
  have "r mod 75 < 75" by simp
  then have "r mod 75 + 25 < 2 ^ LENGTH(32)" by simp
  then show ?thesis
    unfolding channel_delay_of_nat unat_of_nat by (rule mod_less)
qed

text \<open>
  Claim C5. The backoff delay is claimed to take every value from 25 to 100 milliseconds.
  The delay is \<^verbatim>\<open>random(25, 100)\<close>, whose upper bound is exclusive: whatever the random
  source yields, the delay is at least 25 and at most 99 and is never
  \<^verbatim>\<open>CHANNEL_BUSY_DELAY_MAX_MS\<close>; the raw values 0 and 74 give the extremes 25 and 99.
\<close>

theorem channel_delay_never_max:
  "25 \<le> unat (channel_delay r) \<and> unat (channel_delay r) \<le> 99
   \<and> channel_delay r \<noteq> word_of_int CHANNEL_BUSY_DELAY_MAX_MS
   \<and> channel_delay 0 = 25 \<and> channel_delay 74 = 99"
proof (intro conjI)
  have lt: "r mod 75 < 75" by simp
  show "25 \<le> unat (channel_delay r)"
    by (simp add: unat_channel_delay)
  show le: "unat (channel_delay r) \<le> 99"
    using lt by (simp add: unat_channel_delay)
  show "channel_delay r \<noteq> word_of_int CHANNEL_BUSY_DELAY_MAX_MS"
  proof
    assume "channel_delay r = word_of_int CHANNEL_BUSY_DELAY_MAX_MS"
    then have "unat (channel_delay r) = 100"
      by (simp add: CHANNEL_BUSY_DELAY_MAX_MS_def)
    with le show False by simp
  qed
  show "channel_delay 0 = 25"
    by (simp add: channel_delay_of_nat)
  show "channel_delay 74 = 99"
    by (simp add: channel_delay_of_nat)
qed

section \<open>Properties of the transmit protocol\<close>

lemma on_radio_simps [simp]:
  "node_id (on_radio f n) = node_id n"
  "radio_address (on_radio f n) = radio_address n"
  "radio_channel (on_radio f n) = radio_channel n"
  "sensor_status (on_radio f n) = sensor_status n"
  "delays (on_radio f n) = delays n"
  "radio (on_radio f n) = f (radio n)"
  by (simp_all add: on_radio_def)

lemma delay_simps [simp]:
  "node_id (delay ms n) = node_id n"
  "radio_address (delay ms n) = radio_address n"
  "radio_channel (delay ms n) = radio_channel n"
  "sensor_status (delay ms n) = sensor_status n"
  "delays (delay ms n) = delays n @ [ms]"
  "radio (delay ms n) = radio n"
  by (simp_all add: delay_def)

lemma called_simps [simp]:
  "channel (called c r) = channel r"
  "reading_pipes (called c r) = reading_pipes r"
  "writing_pipe (called c r) = writing_pipe r"
  "listening (called c r) = listening r"
  "calls (called c r) = calls r @ [c]"
  by (simp_all add: called_def)

text \<open>The loop changes nothing of the node but the lists of driver calls and of delays.\<close>

lemma carrier_sense_loop_frame:
  "carrier_sense_loop carrier rnd i b n = (res, n') \<Longrightarrow>
     node_id n' = node_id n \<and> radio_address n' = radio_address n \<and>
     radio_channel n' = radio_channel n \<and> sensor_status n' = sensor_status n \<and>
     channel (radio n') = channel (radio n) \<and>
     reading_pipes (radio n') = reading_pipes (radio n) \<and>
     writing_pipe (radio n') = writing_pipe (radio n) \<and>
     listening (radio n') = listening (radio n)"
proof (induction carrier rnd i b n arbitrary: res n' rule: carrier_sense_loop.induct)
  case (1 carrier rnd i b n)
  show ?case
  proof (cases "i < CHANNEL_CHECKS_MAX")
    case False
    with "1.prems" show ?thesis
      by (simp add: carrier_sense_loop.simps [of carrier rnd i b n])
  next
    case lt: True
    show ?thesis
    proof (cases "carrier i")
      case False
      with lt "1.prems" show ?thesis
        by (auto simp: carrier_sense_loop.simps [of carrier rnd i b n] testCarrier_def)
    next
      case True
      with lt "1.prems" have rec:
        "carrier_sense_loop carrier rnd (i + 1) False
           (delay (channel_delay (rnd i)) (on_radio testCarrier n)) = (res, n')"
        by (simp add: carrier_sense_loop.simps [of carrier rnd i b n])
      from True have ne: "True \<noteq> (False = carrier i)" by simp
      from True rec have rec': "carrier_sense_loop carrier rnd (i + 1) (False = carrier i)
           (delay (channel_delay (rnd i)) (on_radio testCarrier n)) = (res, n')"
        by simp
      from "1.IH" [OF lt refl refl ne rec'] show ?thesis
        by (simp add: testCarrier_def)
    qed
  qed
qed

text \<open>The calls of the loop are carrier probes only.\<close>

lemma carrier_sense_loop_calls:
  "carrier_sense_loop carrier rnd i b n = (res, n') \<Longrightarrow>
     \<exists>k. calls (radio n') = calls (radio n) @ replicate k TestCarrier"
proof (induction carrier rnd i b n arbitrary: res n' rule: carrier_sense_loop.induct)
  case (1 carrier rnd i b n)
  show ?case
  proof (cases "i < CHANNEL_CHECKS_MAX")
    case False
    with "1.prems" have "n' = n"
      by (simp add: carrier_sense_loop.simps [of carrier rnd i b n])
    then have "calls (radio n') = calls (radio n) @ replicate 0 TestCarrier" by simp
    then show ?thesis by blast
  next
    case lt: True
    show ?thesis
    proof (cases "carrier i")
      case False
      with lt "1.prems" have "n' = on_radio testCarrier n"
        by (auto simp: carrier_sense_loop.simps [of carrier rnd i b n])
      then have "calls (radio n') = calls (radio n) @ replicate 1 TestCarrier"
        by (simp add: testCarrier_def)
      then show ?thesis by blast
    next
      case True
      with lt "1.prems" have rec:
        "carrier_sense_loop carrier rnd (i + 1) False
           (delay (channel_delay (rnd i)) (on_radio testCarrier n)) = (res, n')"
        by (simp add: carrier_sense_loop.simps [of carrier rnd i b n])
      from True have ne: "True \<noteq> (False = carrier i)" by simp
      from True rec have rec': "carrier_sense_loop carrier rnd (i + 1) (False = carrier i)
           (delay (channel_delay (rnd i)) (on_radio testCarrier n)) = (res, n')"
        by simp
      from "1.IH" [OF lt refl refl ne rec'] obtain k where
        "calls (radio n') = (calls (radio n) @ [TestCarrier]) @ replicate k TestCarrier"
        by (auto simp: testCarrier_def)
      then have "calls (radio n') = calls (radio n) @ replicate (Suc k) TestCarrier"
        by simp
      then show ?thesis by blast
    qed
  qed
qed

text \<open>
  The loop ends with the channel found open exactly when some probe from \<open>i\<close> on senses no
  carrier (or no probe is left and the flag was set before).
\<close>

lemma carrier_sense_loop_result:
  "fst (carrier_sense_loop carrier rnd i b n) \<longleftrightarrow>
     (\<exists>j. i \<le> j \<and> j < CHANNEL_CHECKS_MAX \<and> \<not> carrier j) \<or> (CHANNEL_CHECKS_MAX \<le> i \<and> b)"
proof (induction carrier rnd i b n rule: carrier_sense_loop.induct)
  case (1 carrier rnd i b n)
  show ?case
  proof (cases "i < CHANNEL_CHECKS_MAX")
    case False
    then show ?thesis
      by (auto simp: carrier_sense_loop.simps [of carrier rnd i b n])
  next
    case lt: True
    show ?thesis
    proof (cases "carrier i")
      case False
      with lt show ?thesis
        by (auto simp: carrier_sense_loop.simps [of carrier rnd i b n])
    next
      case True
      from True lt have ne: "True \<noteq> (False = carrier i)" by simp
      have step: "carrier_sense_loop carrier rnd i b n =
          carrier_sense_loop carrier rnd (i + 1) False
            (delay (channel_delay (rnd i)) (on_radio testCarrier n))"
        using True lt by (simp add: carrier_sense_loop.simps [of carrier rnd i b n])
      have "(\<exists>j. i + 1 \<le> j \<and> j < CHANNEL_CHECKS_MAX \<and> \<not> carrier j) \<longleftrightarrow>
          (\<exists>j. i \<le> j \<and> j < CHANNEL_CHECKS_MAX \<and> \<not> carrier j)"
        using True by (metis Suc_eq_plus1 Suc_leI le_neq_implies_less add_leD1)
      moreover from True have "(False = carrier i) = False" by simp
      ultimately show ?thesis
        using "1.IH" [OF lt refl refl ne] lt unfolding step by simp
    qed
  qed
qed

lemma carrier_sense_loop_open_iff:
  "fst (carrier_sense_loop carrier rnd 0 False n) \<longleftrightarrow> (\<exists>j < CHANNEL_CHECKS_MAX. \<not> carrier j)"
  by (simp add: carrier_sense_loop_result)
lemma radio_op_simps [simp]:
  "channel (setChannel c r) = c"
  "reading_pipes (setChannel c r) = reading_pipes r"
  "listening (setChannel c r) = listening r"
  "calls (setChannel c r) = calls r @ [SetChannel c]"
  "channel (openReadingPipe p a r) = channel r"
  "reading_pipes (openReadingPipe p a r) = (reading_pipes r)(p \<mapsto> a)"
  "listening (openReadingPipe p a r) = listening r"
  "calls (openReadingPipe p a r) = calls r @ [OpenReadingPipe p a]"
  "channel (closeReadingPipe p r) = channel r"
  "listening (closeReadingPipe p r) = listening r"
  "calls (closeReadingPipe p r) = calls r @ [CloseReadingPipe p]"
  "channel (openWritingPipe a r) = channel r"
  "listening (openWritingPipe a r) = listening r"
  "calls (openWritingPipe a r) = calls r @ [OpenWritingPipe a]"
  "channel (startListening r) = channel r"
  "reading_pipes (startListening r) = reading_pipes r"
  "listening (startListening r) = True"
  "calls (startListening r) = calls r @ [StartListening]"
  "channel (stopListening r) = channel r"
  "listening (stopListening r) = False"
  "calls (stopListening r) = calls r @ [StopListening]"
  "channel (write_payload m r) = channel r"
  "listening (write_payload m r) = listening r"
  "calls (write_payload m r) = calls r @ [Write m]"
  by (simp_all add: setChannel_def openReadingPipe_def closeReadingPipe_def
      openWritingPipe_def startListening_def stopListening_def write_payload_def)

text \<open>The two exits of \<^verbatim>\<open>transmit_update\<close>, by the outcome of the carrier-sense loop.\<close>

lemma transmit_update_aborted:
  assumes loop: "carrier_sense_loop carrier rnd 0 False
      (on_radio (setChannel (calculate_radio_channel (get_rx_id msg))) n) = (False, n2)"
  shows "transmit_update carrier rnd ack msg n =
      (False, on_radio (openReadingPipe RF24_READING_PIPE (radio_address n2))
                (on_radio (setChannel (radio_channel n2)) n2))"
  by (simp add: transmit_update_def Let_def loop)

lemma transmit_update_sent:
  assumes loop: "carrier_sense_loop carrier rnd 0 False
      (on_radio (setChannel (calculate_radio_channel (get_rx_id msg))) n) = (True, n2)"
  shows "transmit_update carrier rnd ack msg n =
      (ack, on_radio startListening
             (on_radio (openReadingPipe RF24_READING_PIPE (radio_address n2))
               (on_radio (setChannel (radio_channel n2))
                 (on_radio (write_payload msg)
                   (on_radio (openWritingPipe (calculate_radio_address (get_rx_id msg)))
                     (on_radio (closeReadingPipe RF24_READING_PIPE)
                       (on_radio stopListening n2)))))))"
  by (simp add: transmit_update_def Let_def loop)

lemma transmit_update_effect:
  assumes tx: "transmit_update carrier rnd ack msg n = (res, n')"
  shows "node_id n' = node_id n"
    and "sensor_status n' = sensor_status n"
    and "radio_channel n' = radio_channel n"
    and "radio_address n' = radio_address n"
    and "channel (radio n') = radio_channel n"
    and "reading_pipes (radio n') RF24_READING_PIPE = Some (radio_address n)"
    and "listening (radio n') \<longleftrightarrow> listening (radio n) \<or> (\<exists>j < CHANNEL_CHECKS_MAX. \<not> carrier j)"
    and "res \<longleftrightarrow> (\<exists>j < CHANNEL_CHECKS_MAX. \<not> carrier j) \<and> ack"
proof -
  define n1 where "n1 = on_radio (setChannel (calculate_radio_channel (get_rx_id msg))) n"
  obtain b n2 where loop: "carrier_sense_loop carrier rnd 0 False n1 = (b, n2)"
    by (cases "carrier_sense_loop carrier rnd 0 False n1") blast
  have b: "b \<longleftrightarrow> (\<exists>j < CHANNEL_CHECKS_MAX. \<not> carrier j)"
    using carrier_sense_loop_open_iff [of carrier rnd n1] loop by simp
  note fr = carrier_sense_loop_frame [OF loop]
  have all: "node_id n' = node_id n \<and> sensor_status n' = sensor_status n
      \<and> radio_channel n' = radio_channel n \<and> radio_address n' = radio_address n
      \<and> channel (radio n') = radio_channel n
      \<and> reading_pipes (radio n') RF24_READING_PIPE = Some (radio_address n)
      \<and> (listening (radio n') \<longleftrightarrow> listening (radio n) \<or> b)
      \<and> (res \<longleftrightarrow> b \<and> ack)"
  proof (cases b)
    case False
    with loop have "carrier_sense_loop carrier rnd 0 False n1 = (False, n2)" by simp
    from transmit_update_aborted [OF this [unfolded n1_def], of ack] tx
    have "res = False" and "n' = on_radio (openReadingPipe RF24_READING_PIPE (radio_address n2))
        (on_radio (setChannel (radio_channel n2)) n2)"
      by simp_all
    with fr False show ?thesis by (simp add: n1_def)
  next
    case True
    with loop have "carrier_sense_loop carrier rnd 0 False n1 = (True, n2)" by simp
    from transmit_update_sent [OF this [unfolded n1_def], of ack] tx
    have "res = ack" and "n' = on_radio startListening
        (on_radio (openReadingPipe RF24_READING_PIPE (radio_address n2))
          (on_radio (setChannel (radio_channel n2))
            (on_radio (write_payload msg)
              (on_radio (openWritingPipe (calculate_radio_address (get_rx_id msg)))
                (on_radio (closeReadingPipe RF24_READING_PIPE)
                  (on_radio stopListening n2))))))"
      by simp_all
    with fr True show ?thesis by (simp add: n1_def)
  qed
  from all b show "node_id n' = node_id n"
    and "sensor_status n' = sensor_status n"
    and "radio_channel n' = radio_channel n"
    and "radio_address n' = radio_address n"
    and "channel (radio n') = radio_channel n"
    and "reading_pipes (radio n') RF24_READING_PIPE = Some (radio_address n)"
    and "listening (radio n') \<longleftrightarrow> listening (radio n) \<or> (\<exists>j < CHANNEL_CHECKS_MAX. \<not> carrier j)"
    and "res \<longleftrightarrow> (\<exists>j < CHANNEL_CHECKS_MAX. \<not> carrier j) \<and> ack"
    by simp_all
qed

text \<open>On the abort exit the calls made are a retune, carrier probes, and the restoring pair.\<close>

lemma transmit_update_busy_calls:
  assumes busy: "\<not> (\<exists>j < CHANNEL_CHECKS_MAX. \<not> carrier j)"
    and tx: "transmit_update carrier rnd ack msg n = (res, n')"
  shows "\<exists>k. calls (radio n') = calls (radio n)
      @ SetChannel (calculate_radio_channel (get_rx_id msg)) # replicate k TestCarrier
      @ [SetChannel (radio_channel n), OpenReadingPipe RF24_READING_PIPE (radio_address n)]"
proof -
  define n1 where "n1 = on_radio (setChannel (calculate_radio_channel (get_rx_id msg))) n"
  obtain b n2 where loop: "carrier_sense_loop carrier rnd 0 False n1 = (b, n2)"
    by (cases "carrier_sense_loop carrier rnd 0 False n1") blast
  have "b \<longleftrightarrow> (\<exists>j < CHANNEL_CHECKS_MAX. \<not> carrier j)"
    using carrier_sense_loop_open_iff [of carrier rnd n1] loop by simp
  with busy loop have loop': "carrier_sense_loop carrier rnd 0 False n1 = (False, n2)"
    by simp
  note fr = carrier_sense_loop_frame [OF loop']
  from carrier_sense_loop_calls [OF loop'] obtain k where
    k: "calls (radio n2) = calls (radio n1) @ replicate k TestCarrier" by blast
  from transmit_update_aborted [OF loop' [unfolded n1_def], of ack] tx
  have "n' = on_radio (openReadingPipe RF24_READING_PIPE (radio_address n2))
        (on_radio (setChannel (radio_channel n2)) n2)"
    by simp
  with fr k have "calls (radio n') = calls (radio n)
      @ SetChannel (calculate_radio_channel (get_rx_id msg)) # replicate k TestCarrier
      @ [SetChannel (radio_channel n), OpenReadingPipe RF24_READING_PIPE (radio_address n)]"
    by (simp add: n1_def)
  then show ?thesis by blast
qed
lemma init_ok:
  "init True True n = (res, n') \<Longrightarrow>
     res \<and> radio_channel n' = radio_channel n \<and> radio_address n' = radio_address n \<and>
     channel (radio n') = radio_channel n \<and>
     reading_pipes (radio n') RF24_READING_PIPE = Some (radio_address n) \<and>
     listening (radio n')"
  by (auto simp: init_def Let_def)

lemma init_at_rest:
  assumes "init sensor_ok radio_ok n0 = (True, n)"
  shows "at_rest n"
proof -
  from assms have "sensor_ok" and "radio_ok"
    by (auto simp: init_def Let_def split: if_splits)
  with assms have "init True True n0 = (True, n)" by simp
  from init_ok [OF this] show ?thesis
    by (simp add: at_rest_def)
qed

lemma transmit_update_at_rest:
  assumes "at_rest n" and "transmit_update carrier rnd ack msg n = (res, n')"
  shows "at_rest n'"
  using transmit_update_effect [OF assms(2)] assms(1) by (simp add: at_rest_def)

lemma is_sensor_status_changed_at_rest:
  assumes "at_rest n" and "is_sensor_status_changed status n = (res, n')"
  shows "at_rest n'"
  using assms
  by (auto simp: is_sensor_status_changed_def at_rest_def split: if_splits)

lemma read_message_at_rest:
  assumes "at_rest n" and "read_message avail payload buffer len n = (res, buffer', n')"
  shows "at_rest n'"
  using assms
  by (auto simp: read_message_def Let_def available_def at_rest_def split: if_splits)

text \<open>Every state the program reaches has the radio in its resting configuration.\<close>

lemma reachable_at_rest: "reachable n \<Longrightarrow> at_rest n"
proof (induction rule: reachable.induct)
  case (after_init sensor_ok radio_ok n0 n)
  then show ?case by (rule init_at_rest)
next
  case (after_is_sensor_status_changed n status changed n')
  then show ?case by (blast intro: is_sensor_status_changed_at_rest)
next
  case (after_transmit_update n carrier rnd ack msg sent n')
  then show ?case by (blast intro: transmit_update_at_rest)
next
  case (after_transmit_update_to n carrier rnd ack rx_node_id sent n')
  from after_transmit_update_to.hyps(2) obtain msg where
    "transmit_update carrier rnd ack msg n = (sent, n')"
    by (simp add: transmit_update_to_def Let_def)
  with after_transmit_update_to.IH show ?case
    by (blast intro: transmit_update_at_rest)
next
  case (after_is_message n avail res n')
  then show ?case
    by (auto simp: is_message_def available_def at_rest_def)
next
  case (after_read_message n avail payload buffer len res buffer' n')
  then show ?case by (blast intro: read_message_at_rest)
qed

text \<open>
  Claim C1. In every state of the node that the program reaches (from a successful
  \<^verbatim>\<open>init\<close> on, through any calls of the node's member functions), a call of
  \<^verbatim>\<open>transmit_update\<close> on an update message returns, whether with success or with failure
  (the carrier-busy abort, or a send that was not acknowledged), with the radio tuned to the
  node's own channel, the reading pipe open on the node's own address, and the radio
  listening; the node's own channel and address are as before the call. The call returns
  true exactly when some probe found the channel idle and the send was acknowledged.
\<close>

theorem transmit_update_restores_own_configuration:
  assumes "reachable n" and "transmit_update carrier rnd ack msg n = (res, n')"
  shows "channel (radio n') = radio_channel n'
    \<and> reading_pipes (radio n') RF24_READING_PIPE = Some (radio_address n')
    \<and> listening (radio n')
    \<and> at_rest n'
    \<and> radio_channel n' = radio_channel n \<and> radio_address n' = radio_address n
    \<and> (res \<longleftrightarrow> (\<exists>j < CHANNEL_CHECKS_MAX. \<not> carrier j) \<and> ack)
    \<and> reachable n'"
proof -
  from assms(1) have "at_rest n" by (rule reachable_at_rest)
  then have "at_rest n'" using assms(2) by (rule transmit_update_at_rest)
  moreover from assms have "reachable n'" by (rule reachable.after_transmit_update)
  ultimately show ?thesis
    using transmit_update_effect(3,4,8) [OF assms(2)] by (simp add: at_rest_def)
qed

theorem transmit_update_restores_own_configuration_witness:
  "reachable (snd (init True True (SensorNode
      \<lparr>node_id = 0, radio_address = 0, radio_channel = 0, sensor_status = UNKNOWN,
       radio = \<lparr>channel = 76, reading_pipes = Map.empty, writing_pipe = None,
                listening = False, calls = []\<rparr>, delays = []\<rparr> 2)))
   \<and> fst (transmit_update (\<lambda>i. True) (\<lambda>i. 0) True (UpdateMessage 0 2 2 True)
      (snd (init True True (SensorNode
        \<lparr>node_id = 0, radio_address = 0, radio_channel = 0, sensor_status = UNKNOWN,
         radio = \<lparr>channel = 76, reading_pipes = Map.empty, writing_pipe = None,
                  listening = False, calls = []\<rparr>, delays = []\<rparr> 2)))) = False
   \<and> at_rest (snd (transmit_update (\<lambda>i. True) (\<lambda>i. 0) True (UpdateMessage 0 2 2 True)
      (snd (init True True (SensorNode
        \<lparr>node_id = 0, radio_address = 0, radio_channel = 0, sensor_status = UNKNOWN,
         radio = \<lparr>channel = 76, reading_pipes = Map.empty, writing_pipe = None,
                  listening = False, calls = []\<rparr>, delays = []\<rparr> 2)))))
   \<and> channel (radio (snd (transmit_update (\<lambda>i. True) (\<lambda>i. 0) True (UpdateMessage 0 2 2 True)
      (snd (init True True (SensorNode
        \<lparr>node_id = 0, radio_address = 0, radio_channel = 0, sensor_status = UNKNOWN,
         radio = \<lparr>channel = 76, reading_pipes = Map.empty, writing_pipe = None,
                  listening = False, calls = []\<rparr>, delays = []\<rparr> 2)))))) = 10
   \<and> fst (transmit_update (\<lambda>i. False) (\<lambda>i. 0) False (UpdateMessage 0 2 2 True)
      (snd (init True True (SensorNode
        \<lparr>node_id = 0, radio_address = 0, radio_channel = 0, sensor_status = UNKNOWN,
         radio = \<lparr>channel = 76, reading_pipes = Map.empty, writing_pipe = None,
                  listening = False, calls = []\<rparr>, delays = []\<rparr> 2)))) = False
   \<and> at_rest (snd (transmit_update (\<lambda>i. False) (\<lambda>i. 0) False (UpdateMessage 0 2 2 True)
      (snd (init True True (SensorNode
        \<lparr>node_id = 0, radio_address = 0, radio_channel = 0, sensor_status = UNKNOWN,
         radio = \<lparr>channel = 76, reading_pipes = Map.empty, writing_pipe = None,
                  listening = False, calls = []\<rparr>, delays = []\<rparr> 2)))))
   \<and> fst (transmit_update (\<lambda>i. False) (\<lambda>i. 0) True (UpdateMessage 0 2 2 True)
      (snd (init True True (SensorNode
        \<lparr>node_id = 0, radio_address = 0, radio_channel = 0, sensor_status = UNKNOWN,
         radio = \<lparr>channel = 76, reading_pipes = Map.empty, writing_pipe = None,
                  listening = False, calls = []\<rparr>, delays = []\<rparr> 2)))) = True
   \<and> at_rest (snd (transmit_update (\<lambda>i. False) (\<lambda>i. 0) True (UpdateMessage 0 2 2 True)
      (snd (init True True (SensorNode
        \<lparr>node_id = 0, radio_address = 0, radio_channel = 0, sensor_status = UNKNOWN,
         radio = \<lparr>channel = 76, reading_pipes = Map.empty, writing_pipe = None,
                  listening = False, calls = []\<rparr>, delays = []\<rparr> 2)))))"
proof -
  define n0 where "n0 = SensorNode
      \<lparr>node_id = 0, radio_address = 0, radio_channel = 0, sensor_status = UNKNOWN,
       radio = \<lparr>channel = 76, reading_pipes = Map.empty, writing_pipe = None,
                listening = False, calls = []\<rparr>, delays = []\<rparr> 2"
  define n where "n = snd (init True True n0)"
  define msg where "msg = UpdateMessage 0 2 2 True"
  define busy where "busy = transmit_update (\<lambda>i. True) (\<lambda>i. 0) True msg n"
  define lost where "lost = transmit_update (\<lambda>i. False) (\<lambda>i. 0) False msg n"
  define sent where "sent = transmit_update (\<lambda>i. False) (\<lambda>i. 0) True msg n"
  have "init True True n0 = (True, n)"
    by (simp add: n_def init_def Let_def)
  then have r: "reachable n" by (rule reachable.after_init)
  have ch: "radio_channel n = 10"
    by (simp add: n_def n0_def init_def Let_def SensorNode_def calculate_radio_channel_def
        RF24_CHANNEL_SPACING_def)
  have idle: "\<exists>j < CHANNEL_CHECKS_MAX. \<not> (\<lambda>i. False) j"
    by (simp add: CHANNEL_CHECKS_MAX_def) (rule exI [of _ 0], simp)
  have tx_busy: "transmit_update (\<lambda>i. True) (\<lambda>i. 0) True msg n = (fst busy, snd busy)"
    by (simp add: busy_def)
  have tx_lost: "transmit_update (\<lambda>i. False) (\<lambda>i. 0) False msg n = (fst lost, snd lost)"
    by (simp add: lost_def)
  have tx_sent: "transmit_update (\<lambda>i. False) (\<lambda>i. 0) True msg n = (fst sent, snd sent)"
    by (simp add: sent_def)
  from transmit_update_restores_own_configuration [OF r tx_busy] ch
  have a: "fst busy = False \<and> at_rest (snd busy) \<and> channel (radio (snd busy)) = 10"
    by simp
  from transmit_update_restores_own_configuration [OF r tx_lost]
  have b: "fst lost = False \<and> at_rest (snd lost)"
    by simp
  from transmit_update_restores_own_configuration [OF r tx_sent] idle
  have c: "fst sent = True \<and> at_rest (snd sent)"
    by simp
  from r a b c show ?thesis
    unfolding busy_def lost_def sent_def msg_def n_def n0_def by simp
qed

text \<open>
  Claim C2. If every one of the \<^verbatim>\<open>CHANNEL_CHECKS_MAX\<close> (10) probes senses a carrier,
  \<^verbatim>\<open>transmit_update\<close> returns false; the driver calls it has made are the retune to the
  peer's channel, carrier probes, and the retune to the node's own channel with the reopening
  of the reading pipe on the node's own address, so \<^verbatim>\<open>radio.write\<close> is not among them; and
  at return the radio is on the node's own channel with the reading pipe open on the node's
  own address.
\<close>

theorem transmit_update_carrier_busy:
  assumes "\<forall>j < CHANNEL_CHECKS_MAX. carrier j"
    and "transmit_update carrier rnd ack msg n = (res, n')"
  shows "CHANNEL_CHECKS_MAX = 10 \<and> res = False
    \<and> (\<exists>k. calls (radio n') = calls (radio n)
          @ SetChannel (calculate_radio_channel (get_rx_id msg)) # replicate k TestCarrier
          @ [SetChannel (radio_channel n), OpenReadingPipe RF24_READING_PIPE (radio_address n)])
    \<and> filter is_write (calls (radio n')) = filter is_write (calls (radio n))
    \<and> channel (radio n') = radio_channel n
    \<and> reading_pipes (radio n') RF24_READING_PIPE = Some (radio_address n)
    \<and> radio_channel n' = radio_channel n \<and> radio_address n' = radio_address n"
proof -
  from assms(1) have busy: "\<not> (\<exists>j < CHANNEL_CHECKS_MAX. \<not> carrier j)" by blast
  from transmit_update_busy_calls [OF busy assms(2)] obtain k where
    k: "calls (radio n') = calls (radio n)
          @ SetChannel (calculate_radio_channel (get_rx_id msg)) # replicate k TestCarrier
          @ [SetChannel (radio_channel n), OpenReadingPipe RF24_READING_PIPE (radio_address n)]"
    by blast
  have "filter is_write (replicate k TestCarrier) = []" by simp
  with k have "filter is_write (calls (radio n')) = filter is_write (calls (radio n))"
    by simp
  with k transmit_update_effect [OF assms(2)] busy show ?thesis
    by (simp add: CHANNEL_CHECKS_MAX_def)
qed

theorem transmit_update_carrier_busy_witness:
  "fst (transmit_update (\<lambda>i. True) (\<lambda>i. i) True (UpdateMessage 0 3 3 False)
      \<lparr>node_id = 3, radio_address = 0x03030303, radio_channel = 15, sensor_status = OCCUPIED,
       radio = \<lparr>channel = 15, reading_pipes = [1 \<mapsto> 0x03030303], writing_pipe = None,
                listening = True, calls = []\<rparr>, delays = []\<rparr>) = False
   \<and> filter is_write (calls (radio (snd (transmit_update (\<lambda>i. True) (\<lambda>i. i) True
      (UpdateMessage 0 3 3 False)
      \<lparr>node_id = 3, radio_address = 0x03030303, radio_channel = 15, sensor_status = OCCUPIED,
       radio = \<lparr>channel = 15, reading_pipes = [1 \<mapsto> 0x03030303], writing_pipe = None,
                listening = True, calls = []\<rparr>, delays = []\<rparr>)))) = []
   \<and> channel (radio (snd (transmit_update (\<lambda>i. True) (\<lambda>i. i) True
      (UpdateMessage 0 3 3 False)
      \<lparr>node_id = 3, radio_address = 0x03030303, radio_channel = 15, sensor_status = OCCUPIED,
       radio = \<lparr>channel = 15, reading_pipes = [1 \<mapsto> 0x03030303], writing_pipe = None,
                listening = True, calls = []\<rparr>, delays = []\<rparr>))) = 15
   \<and> reading_pipes (radio (snd (transmit_update (\<lambda>i. True) (\<lambda>i. i) True
      (UpdateMessage 0 3 3 False)
      \<lparr>node_id = 3, radio_address = 0x03030303, radio_channel = 15, sensor_status = OCCUPIED,
       radio = \<lparr>channel = 15, reading_pipes = [1 \<mapsto> 0x03030303], writing_pipe = None,
                listening = True, calls = []\<rparr>, delays = []\<rparr>))) RF24_READING_PIPE
     = Some 0x03030303"
proof -
  define n where "n =
      \<lparr>node_id = 3, radio_address = 0x03030303, radio_channel = 15, sensor_status = OCCUPIED,
       radio = \<lparr>channel = 15, reading_pipes = [1 \<mapsto> 0x03030303], writing_pipe = None,
                listening = True, calls = []\<rparr>, delays = []\<rparr>"
  define out where "out = transmit_update (\<lambda>i. True) (\<lambda>i. i) True (UpdateMessage 0 3 3 False) n"
  have busy: "\<forall>j < CHANNEL_CHECKS_MAX. (\<lambda>i. True) j" by simp
  have tx: "transmit_update (\<lambda>i. True) (\<lambda>i. i) True (UpdateMessage 0 3 3 False) n
      = (fst out, snd out)"
    by (simp add: out_def)
  from transmit_update_carrier_busy [OF busy tx]
  have "fst out = False \<and> filter is_write (calls (radio (snd out))) = []
      \<and> channel (radio (snd out)) = 15
      \<and> reading_pipes (radio (snd out)) RF24_READING_PIPE = Some 0x03030303"
    by (simp add: n_def)
  then show ?thesis
    unfolding out_def n_def by simp
qed

text \<open>
  Claim C10. When \<^verbatim>\<open>radio.available()\<close> is false, \<^verbatim>\<open>read_message\<close> returns false, the
  caller's buffer is as it was and the only driver call made is the availability check (no
  read). When it is true, \<^verbatim>\<open>read_message\<close> returns true after one \<^verbatim>\<open>radio.read\<close> of the
  given length into the caller's buffer, whose leading bytes are then those of the payload.
\<close>

theorem read_message_correct:
  "read_message False payload buffer len n = (False, buffer, on_radio available n)
   \<and> calls (radio (on_radio available n)) = calls (radio n) @ [Available]
   \<and> filter is_read (calls (radio (on_radio available n))) = filter is_read (calls (radio n))
   \<and> read_message True payload buffer len n =
       (True, read_payload payload (unat len) buffer,
        on_radio (called (Read (unat len))) (on_radio available n))
   \<and> calls (radio (on_radio (called (Read (unat len))) (on_radio available n)))
       = calls (radio n) @ [Available, Read (unat len)]
   \<and> take (min (unat len) (length payload)) (read_payload payload (unat len) buffer)
       = take (unat len) payload"
proof -
  have "take (min (unat len) (length payload)) payload = take (unat len) payload"
    by (simp add: min_def)
  then show ?thesis
    by (simp add: read_message_def Let_def available_def read_payload_def)
qed

text \<open>Every delay the carrier-sense loop takes is a backoff delay, from 25 to 99 ms.\<close>

lemma carrier_sense_loop_delays:
  "carrier_sense_loop carrier rnd i b n = (res, n') \<Longrightarrow>
     \<exists>ds. delays n' = delays n @ ds \<and> (\<forall>d \<in> set ds. 25 \<le> unat d \<and> unat d \<le> 99)"
proof (induction carrier rnd i b n arbitrary: res n' rule: carrier_sense_loop.induct)
  case (1 carrier rnd i b n)
  show ?case
  proof (cases "i < CHANNEL_CHECKS_MAX \<and> carrier i")
    case False
    with "1.prems" have "delays n' = delays n @ []"
      by (cases "i < CHANNEL_CHECKS_MAX")
        (auto simp: carrier_sense_loop.simps [of carrier rnd i b n])
    then show ?thesis by fastforce
  next
    case True
    then have lt: "i < CHANNEL_CHECKS_MAX" and ne: "True \<noteq> (False = carrier i)"
      by simp_all
    from True "1.prems" have rec:
      "carrier_sense_loop carrier rnd (i + 1) (False = carrier i)
         (delay (channel_delay (rnd i)) (on_radio testCarrier n)) = (res, n')"
      by (simp add: carrier_sense_loop.simps [of carrier rnd i b n])
    from "1.IH" [OF lt refl refl ne rec] obtain ds where
      ds: "delays n' = (delays n @ [channel_delay (rnd i)]) @ ds"
        "\<forall>d \<in> set ds. 25 \<le> unat d \<and> unat d \<le> 99"
      by auto
    have "r mod 75 < 75" for r :: nat by simp
    then have "25 \<le> unat (channel_delay (rnd i)) \<and> unat (channel_delay (rnd i)) \<le> 99"
      by (simp add: unat_channel_delay)
    with ds have "delays n' = delays n @ (channel_delay (rnd i) # ds) \<and>
        (\<forall>d \<in> set (channel_delay (rnd i) # ds). 25 \<le> unat d \<and> unat d \<le> 99)"
      by simp
    then show ?thesis by blast
  qed
qed

section \<open>Properties of the base station registry\<close>

lemma update_node_status_invalid:
  "\<not> is_valid_sensor_node nid \<Longrightarrow> update_node_status nid vacant bs = Inr (False, bs)"
  by (simp add: update_node_status_def)

lemma update_node_status_valid:
  assumes "is_valid_sensor_node nid" and "length (node_status bs) = SENSOR_NODE_NUM"
  shows "update_node_status nid vacant bs =
      Inr (True, bs\<lparr>node_status := (node_status bs)[unat nid - 1 := vacant]\<rparr>)"
proof -
  from assms have "unat nid - 1 < length (node_status bs)"
    unfolding is_valid_sensor_node_def by arith
  with assms(1) show ?thesis
    by (simp add: update_node_status_def array_write_def)
qed

lemma get_node_status_valid:
  assumes "is_valid_sensor_node nid" and "length (node_status bs) = SENSOR_NODE_NUM"
  shows "get_node_status nid bs = Inr (node_status bs ! (unat nid - 1))"
proof -
  from assms have "unat nid - 1 < length (node_status bs)"
    unfolding is_valid_sensor_node_def by arith
  with assms(1) show ?thesis
    by (simp add: get_node_status_def array_read_def)
qed

lemma valid_index_inj:
  assumes "is_valid_sensor_node a" and "is_valid_sensor_node b" and "a \<noteq> b"
  shows "unat a - 1 \<noteq> unat b - 1"
proof -
  from assms(3) have "unat a \<noteq> unat b" by (simp add: word_unat_eq_iff)
  with assms(1,2) show ?thesis unfolding is_valid_sensor_node_def by arith
qed

lemma update_node_status_length:
  assumes "update_node_status nid vacant bs = Inr (ok, bs')"
  shows "length (node_status bs') = length (node_status bs)"
  using assms
  by (auto simp: update_node_status_def array_write_def split: if_splits)

lemma update_node_status_no_fault:
  assumes "length (node_status bs) = SENSOR_NODE_NUM"
  shows "\<exists>ok bs'. update_node_status nid vacant bs = Inr (ok, bs')"
proof (cases "is_valid_sensor_node nid")
  case True
  from update_node_status_valid [OF True assms] show ?thesis by blast
next
  case False
  from update_node_status_invalid [OF False] show ?thesis by blast
qed

lemma update_all_no_fault:
  "length (node_status bs) = SENSOR_NODE_NUM \<Longrightarrow>
     \<exists>bs'. update_all us bs = Inr bs' \<and> length (node_status bs') = SENSOR_NODE_NUM"
proof (induction us arbitrary: bs)
  case Nil
  then show ?case by simp
next
  case (Cons u us)
  obtain nid vacant where u: "u = (nid, vacant)" by (cases u)
  from update_node_status_no_fault [OF Cons.prems] obtain ok bs1 where
    step: "update_node_status nid vacant bs = Inr (ok, bs1)" by blast
  from update_node_status_length [OF step] Cons.prems
  have "length (node_status bs1) = SENSOR_NODE_NUM" by simp
  from Cons.IH [OF this] show ?case
    by (simp add: u step)
qed

lemma count_list_less_length: "count_list xs x \<le> length xs"
  by (induction xs) auto

text \<open>The scan from entry \<open>i\<close> on adds the number of vacant entries left to the count.\<close>

lemma num_vacant_loop_count:
  "length (node_status bs) = SENSOR_NODE_NUM \<Longrightarrow>
     num_vacant_loop i count bs =
       Inr (count + of_nat (count_list (drop i (node_status bs)) True))"
proof (induction i count bs rule: num_vacant_loop.induct)
  case (1 i count bs)
  show ?case
  proof (cases "i < SENSOR_NODE_NUM")
    case False
    with "1.prems" show ?thesis
      by (simp add: num_vacant_loop.simps [of i count bs])
  next
    case True
    with "1.prems" have lt: "i < length (node_status bs)" by simp
    then have rd: "array_read (node_status bs) i = Inr (node_status bs ! i)"
      by (simp add: array_read_def)
    from lt have dr: "drop i (node_status bs) = node_status bs ! i # drop (i + 1) (node_status bs)"
      by (simp add: Cons_nth_drop_Suc)
    from "1.IH" [OF True rd "1.prems"] True show ?thesis
      unfolding dr by (simp add: num_vacant_loop.simps [of i count bs] rd)
  qed
qed

lemma num_vacant_count:
  assumes "length (node_status bs) = SENSOR_NODE_NUM"
  shows "\<exists>c. num_vacant bs = Inr c \<and> unat c = count_list (node_status bs) True"
proof -
  have "count_list (node_status bs) True \<le> SENSOR_NODE_NUM"
    using count_list_less_length [of "node_status bs" True] assms by simp
  then have "count_list (node_status bs) True < 2 ^ LENGTH(8)"
    by (simp add: SENSOR_NODE_NUM_def)
  then have "unat (of_nat (count_list (node_status bs) True) :: u8)
      = count_list (node_status bs) True"
    by (simp only: unat_of_nat mod_less)
  with num_vacant_loop_count [OF assms, of 0 0] show ?thesis
    by (simp add: num_vacant_def)
qed
text \<open>
  Claim C8. \<^verbatim>\<open>is_valid_sensor_node\<close> holds exactly for the ids 1 to 10. With an id outside
  that range \<^verbatim>\<open>update_node_status\<close> returns false and the base station is as it was. With
  an id inside it, on a registry of its 10 entries, \<^verbatim>\<open>update_node_status\<close> returns true and
  writes the one entry of that id: afterwards the status of that id is the flag given and the
  status of every other valid id is as before. On a registry of its 10 entries no operation
  (update, read, count) accesses the array outside its bounds, whatever the id, and an update
  leaves the registry with its 10 entries.
\<close>

theorem update_node_status_correct:
  "(is_valid_sensor_node nid \<longleftrightarrow> 1 \<le> unat nid \<and> unat nid \<le> 10)
   \<and> (\<not> is_valid_sensor_node nid \<longrightarrow> update_node_status nid vacant bs = Inr (False, bs))
   \<and> (is_valid_sensor_node nid \<and> length (node_status bs) = SENSOR_NODE_NUM \<longrightarrow>
        (\<exists>bs'. update_node_status nid vacant bs = Inr (True, bs')
           \<and> bs' = bs\<lparr>node_status := (node_status bs)[unat nid - 1 := vacant]\<rparr>
           \<and> get_node_status nid bs' = Inr vacant
           \<and> (\<forall>other. is_valid_sensor_node other \<and> other \<noteq> nid \<longrightarrow>
                 get_node_status other bs' = get_node_status other bs)))
   \<and> (length (node_status bs) = SENSOR_NODE_NUM \<longrightarrow>
        (\<exists>ok bs'. update_node_status nid vacant bs = Inr (ok, bs')
           \<and> length (node_status bs') = SENSOR_NODE_NUM)
        \<and> (\<exists>v. get_node_status nid bs = Inr v)
        \<and> (\<exists>c. num_vacant bs = Inr c))"
proof (intro conjI impI)
  show "is_valid_sensor_node nid \<longleftrightarrow> 1 \<le> unat nid \<and> unat nid \<le> 10"
    by (simp add: is_valid_sensor_node_def SENSOR_NODE_NUM_def)
next
  assume "\<not> is_valid_sensor_node nid"
  then show "update_node_status nid vacant bs = Inr (False, bs)"
    by (rule update_node_status_invalid)
next
  assume h: "is_valid_sensor_node nid \<and> length (node_status bs) = SENSOR_NODE_NUM"
  then have v: "is_valid_sensor_node nid" and len: "length (node_status bs) = SENSOR_NODE_NUM"
    by simp_all
  define bs' where "bs' = bs\<lparr>node_status := (node_status bs)[unat nid - 1 := vacant]\<rparr>"
  have len': "length (node_status bs') = SENSOR_NODE_NUM"
    using len by (simp add: bs'_def)
  from v len have idx: "unat nid - 1 < length (node_status bs)"
    unfolding is_valid_sensor_node_def by arith
  have upd: "update_node_status nid vacant bs = Inr (True, bs')"
    unfolding bs'_def by (rule update_node_status_valid [OF v len])
  have "get_node_status nid bs' = Inr (node_status bs' ! (unat nid - 1))"
    by (rule get_node_status_valid [OF v len'])
  also have "\<dots> = Inr vacant"
    using idx by (simp add: bs'_def)
  finally have own: "get_node_status nid bs' = Inr vacant" .
  have others: "get_node_status other bs' = get_node_status other bs"
    if o: "is_valid_sensor_node other \<and> other \<noteq> nid" for other
  proof -
    from o have ov: "is_valid_sensor_node other" and ne: "other \<noteq> nid" by simp_all
    from valid_index_inj [OF ov v ne] have "unat nid - 1 \<noteq> unat other - 1" by simp
    then have "node_status bs' ! (unat other - 1) = node_status bs ! (unat other - 1)"
      by (simp add: bs'_def)
    then show ?thesis
      unfolding get_node_status_valid [OF ov len'] get_node_status_valid [OF ov len]
      by simp
  qed
  from upd own others show "\<exists>bs'. update_node_status nid vacant bs = Inr (True, bs')
      \<and> bs' = bs\<lparr>node_status := (node_status bs)[unat nid - 1 := vacant]\<rparr>
      \<and> get_node_status nid bs' = Inr vacant
      \<and> (\<forall>other. is_valid_sensor_node other \<and> other \<noteq> nid \<longrightarrow>
            get_node_status other bs' = get_node_status other bs)"
    unfolding bs'_def by blast
next
  assume len: "length (node_status bs) = SENSOR_NODE_NUM"
  from update_node_status_no_fault [OF len, of nid vacant] obtain ok bs' where
    u: "update_node_status nid vacant bs = Inr (ok, bs')" by blast
  from update_node_status_length [OF u] len
  show "\<exists>ok bs'. update_node_status nid vacant bs = Inr (ok, bs')
      \<and> length (node_status bs') = SENSOR_NODE_NUM"
    using u by simp
next
  assume len: "length (node_status bs) = SENSOR_NODE_NUM"
  show "\<exists>v. get_node_status nid bs = Inr v"
  proof (cases "is_valid_sensor_node nid")
    case True
    from get_node_status_valid [OF True len] show ?thesis by blast
  next
    case False
    then have "get_node_status nid bs = Inr False"
      by (simp add: get_node_status_def)
    then show ?thesis by blast
  qed
next
  assume len: "length (node_status bs) = SENSOR_NODE_NUM"
  from num_vacant_count [OF len] show "\<exists>c. num_vacant bs = Inr c" by blast
qed

theorem update_node_status_correct_witness:
  "update_node_status 0 True base_station_default = Inr (False, base_station_default)
   \<and> update_node_status 11 True base_station_default = Inr (False, base_station_default)
   \<and> update_node_status 2 True base_station_default =
       Inr (True, \<lparr>bs_node_id = 0, node_status =
         [False, True, False, False, False, False, False, False, False, False]\<rparr>)
   \<and> get_node_status 2 \<lparr>bs_node_id = 0, node_status =
         [False, True, False, False, False, False, False, False, False, False]\<rparr> = Inr True
   \<and> get_node_status 3 \<lparr>bs_node_id = 0, node_status =
         [False, True, False, False, False, False, False, False, False, False]\<rparr>
       = get_node_status 3 base_station_default"
proof -
  have dflt: "base_station_default = \<lparr>bs_node_id = 0, node_status =
      [False, False, False, False, False, False, False, False, False, False]\<rparr>"
    by (simp add: base_station_default_def SENSOR_NODE_NUM_def eval_nat_numeral)
  have len: "length (node_status base_station_default) = SENSOR_NODE_NUM"
    by (simp add: base_station_default_def)
  have i0: "\<not> is_valid_sensor_node 0"
    by (simp add: is_valid_sensor_node_def)
  have i11: "\<not> is_valid_sensor_node 11"
    by (simp add: is_valid_sensor_node_def SENSOR_NODE_NUM_def)
  have v2: "is_valid_sensor_node 2 \<and> length (node_status base_station_default) = SENSOR_NODE_NUM"
    by (simp add: is_valid_sensor_node_def SENSOR_NODE_NUM_def base_station_default_def)
  have v3: "is_valid_sensor_node 3 \<and> (3::u8) \<noteq> 2"
    by (simp add: is_valid_sensor_node_def SENSOR_NODE_NUM_def)
  have a: "update_node_status 0 True base_station_default = Inr (False, base_station_default)"
    using update_node_status_correct [of 0 True base_station_default] i0 by blast
  have b: "update_node_status 11 True base_station_default = Inr (False, base_station_default)"
    using update_node_status_correct [of 11 True base_station_default] i11 by blast
  from update_node_status_correct [of 2 True base_station_default] v2 v3
  have c: "update_node_status 2 True base_station_default =
        Inr (True, base_station_default\<lparr>node_status :=
          (node_status base_station_default)[unat (2::u8) - 1 := True]\<rparr>)
      \<and> get_node_status 2 (base_station_default\<lparr>node_status :=
          (node_status base_station_default)[unat (2::u8) - 1 := True]\<rparr>) = Inr True
      \<and> get_node_status 3 (base_station_default\<lparr>node_status :=
          (node_status base_station_default)[unat (2::u8) - 1 := True]\<rparr>)
        = get_node_status 3 base_station_default"
    by blast
  have upd: "base_station_default\<lparr>node_status :=
      (node_status base_station_default)[unat (2::u8) - 1 := True]\<rparr>
      = \<lparr>bs_node_id = 0, node_status =
         [False, True, False, False, False, False, False, False, False, False]\<rparr>"
    unfolding dflt by simp
  from a b c show ?thesis
    unfolding upd by simp
qed
lemma base_station_default_entries:
  "base_station_default = \<lparr>bs_node_id = 0, node_status =
     [False, False, False, False, False, False, False, False, False, False]\<rparr>"
  by (simp add: base_station_default_def SENSOR_NODE_NUM_def eval_nat_numeral)

text \<open>
  Claim C9. At startup each of the 10 registry entries is false (occupied), and the count of
  vacant entries is 0. After any sequence of \<^verbatim>\<open>update_node_status\<close> calls from startup the
  registry still has its 10 entries, and \<^verbatim>\<open>num_vacant\<close> returns the number of entries that
  are true (vacant). After the ids 1, 3 and 5 are marked vacant, \<^verbatim>\<open>num_vacant\<close> returns 3.
\<close>

theorem num_vacant_correct:
  "node_status base_station_default = replicate SENSOR_NODE_NUM False
   \<and> length (node_status base_station_default) = 10
   \<and> num_vacant base_station_default = Inr 0
   \<and> (\<exists>bs. update_all us base_station_default = Inr bs
         \<and> length (node_status bs) = SENSOR_NODE_NUM
         \<and> (\<exists>c. num_vacant bs = Inr c \<and> unat c = count_list (node_status bs) True))
   \<and> (\<exists>bs. update_all [(1, True), (3, True), (5, True)] base_station_default = Inr bs
         \<and> node_status bs = [True, False, True, False, True, False, False, False, False, False]
         \<and> num_vacant bs = Inr 3)"
proof (intro conjI)
  show "node_status base_station_default = replicate SENSOR_NODE_NUM False"
    by (simp add: base_station_default_def)
  show "length (node_status base_station_default) = 10"
    by (simp add: base_station_default_def SENSOR_NODE_NUM_def)
  have len: "length (node_status base_station_default) = SENSOR_NODE_NUM"
    by (simp add: base_station_default_def)
  from num_vacant_loop_count [OF len, of 0 0]
  show "num_vacant base_station_default = Inr 0"
    by (simp add: num_vacant_def base_station_default_def)
  from update_all_no_fault [OF len, of us] obtain bs where
    bs: "update_all us base_station_default = Inr bs"
      "length (node_status bs) = SENSOR_NODE_NUM"
    by blast
  from num_vacant_count [OF bs(2)] bs
  show "\<exists>bs. update_all us base_station_default = Inr bs
      \<and> length (node_status bs) = SENSOR_NODE_NUM
      \<and> (\<exists>c. num_vacant bs = Inr c \<and> unat c = count_list (node_status bs) True)"
    by blast
  define bs3 where "bs3 = \<lparr>bs_node_id = 0, node_status =
      [True, False, True, False, True, False, False, False, False, False]\<rparr>"
  have run: "update_all [(1, True), (3, True), (5, True)] base_station_default = Inr bs3"
    unfolding base_station_default_entries bs3_def
    by (simp add: update_node_status_def is_valid_sensor_node_def SENSOR_NODE_NUM_def
        array_write_def)
  have len3: "length (node_status bs3) = SENSOR_NODE_NUM"
    by (simp add: bs3_def SENSOR_NODE_NUM_def)
  from num_vacant_loop_count [OF len3, of 0 0]
  have "num_vacant bs3 = Inr 3"
    by (simp add: num_vacant_def bs3_def)
  with run show "\<exists>bs. update_all [(1, True), (3, True), (5, True)] base_station_default = Inr bs
      \<and> node_status bs = [True, False, True, False, True, False, False, False, False, False]
      \<and> num_vacant bs = Inr 3"
    by (simp add: bs3_def)
qed

end
